theory Spec2Isabelle
  imports Main "HOL-Library.AList"
begin

section \<open>JavaScript values read by the board code\<close>

text \<open>
  The program (src/app.js) keeps one board in the variable \<open>state\<close> and reads
  documents produced by \<open>JSON.parse\<close>. A parsed document is a tree of JSON values.
  An object is the list of its own properties in enumeration order (keys distinct, as
  \<open>JSON.parse\<close> delivers them); the enumeration order of integer-like keys is not
  modelled. Numbers are integers: the program never computes with a number, it only
  tests truthiness and uses values as property keys (an integer stands for itself when
  it is a safe integer of JavaScript, of magnitude below \<open>2^53\<close>).

  A string is the list of its UTF-16 code units, the unit the source's strings count
  in. The type \<open>string\<close> holds the code units 0 to 255 (ASCII and Latin-1); a string
  with a higher code unit is not a value of the type.

  \<open>Object.prototype\<close> is as the runtime creates it: it has the properties listed in
  \<open>OBJECT_PROTOTYPE\<close> below and no others.
\<close>

datatype json =
    JNull
  | JBool bool
  | JNum int
  | JStr string
  | JArr "json list"
  | JObj "(string \<times> json) list"

text \<open>The exceptions the program can raise, by constructor name.\<close>

datatype error = InvalidFile | TypeError | SyntaxError | ReferenceError

text \<open>
  The property names every object inherits from \<open>Object.prototype\<close>. Each is a
  function, except the accessor \<open>__proto__\<close>, which reads and replaces the prototype
  of the object it is used on.
\<close>

definition OBJECT_PROTOTYPE :: "string list" where
  "OBJECT_PROTOTYPE =
     [''constructor'', ''__defineGetter__'', ''__defineSetter__'', ''hasOwnProperty'',
      ''__lookupGetter__'', ''__lookupSetter__'', ''isPrototypeOf'', ''propertyIsEnumerable'',
      ''toString'', ''valueOf'', ''__proto__'', ''toLocaleString'']"

text \<open>\<open>!v\<close> is false exactly for the truthy values.\<close>

fun truthy :: "json \<Rightarrow> bool" where
  "truthy JNull = False"
| "truthy (JBool b) = b"
| "truthy (JNum n) = (n \<noteq> 0)"
| "truthy (JStr s) = (s \<noteq> [])"
| "truthy (JArr xs) = True"
| "truthy (JObj kvs) = True"

fun typeof :: "json \<Rightarrow> string" where
  "typeof JNull = ''object''"
| "typeof (JBool b) = ''boolean''"
| "typeof (JNum n) = ''number''"
| "typeof (JStr s) = ''string''"
| "typeof (JArr xs) = ''object''"
| "typeof (JObj kvs) = ''object''"

text \<open>
  \<open>v.name\<close> for a value \<open>v\<close> that is not \<open>null\<close>: \<open>None\<close> is \<open>undefined\<close>.
  The names the program reads (\<open>lists\<close>, \<open>cards\<close>, \<open>id\<close>, \<open>title\<close>, \<open>cardIds\<close>,
  \<open>createdAt\<close>, \<open>category\<close>, \<open>dueDate\<close>) are no properties of arrays, strings, numbers
  or booleans. Reading a property of \<open>null\<close> throws a TypeError; each function below
  tests for \<open>null\<close> before it uses \<open>property\<close>.
\<close>

fun property :: "json \<Rightarrow> string \<Rightarrow> json option" where
  "property (JObj kvs) k = map_of kvs k"
| "property v k = None"

text \<open>\<open>a ?? b\<close>: \<open>b\<close> when \<open>a\<close> is \<open>null\<close> or \<open>undefined\<close>.\<close>

fun nullish :: "json option \<Rightarrow> json \<Rightarrow> json" where
  "nullish None d = d"
| "nullish (Some JNull) d = d"
| "nullish (Some v) d = v"

text \<open>\<open>Array.isArray(v) ? v.slice() : []\<close> for a property value \<open>v\<close>.\<close>

fun array_or_empty :: "json option \<Rightarrow> json list" where
  "array_or_empty (Some (JArr xs)) = xs"
| "array_or_empty v = []"

text \<open>Decimal digits of a natural number, as \<open>String(n)\<close> prints an array index.\<close>

definition digit :: "nat \<Rightarrow> char" where
  "digit d = char_of (of_char CHR ''0'' + d)"

fun decimal :: "nat \<Rightarrow> string" where
  "decimal n = (if 10 \<le> n then decimal (n div 10) @ [digit (n mod 10)] else [digit n])"

definition decimal_int :: "int \<Rightarrow> string" where
  "decimal_int i = (if i < 0 then CHR ''-'' # decimal (nat (- i)) else decimal (nat i))"

fun join_comma :: "string list \<Rightarrow> string" where
  "join_comma [] = []"
| "join_comma [s] = s"
| "join_comma (s # t # ss) = s @ '','' @ join_comma (t # ss)"

text \<open>
  The property key a value is converted to when it indexes an object
  (\<open>state.cards[cid]\<close>): a string is its own key, the other values are printed, a
  number in decimal as JavaScript prints a safe integer.
\<close>

fun to_property_key :: "json \<Rightarrow> string" where
  "to_property_key JNull = ''null''"
| "to_property_key (JBool b) = (if b then ''true'' else ''false'')"
| "to_property_key (JNum n) = decimal_int n"
| "to_property_key (JStr s) = s"
| "to_property_key (JArr xs) =
     join_comma (map (\<lambda>x. if x = JNull then [] else to_property_key x) xs)"
| "to_property_key (JObj kvs) = ''[object Object]''"

fun indexed :: "nat \<Rightarrow> 'a list \<Rightarrow> (string \<times> 'a) list" where
  "indexed i [] = []"
| "indexed i (x # xs) = (decimal i, x) # indexed (Suc i) xs"

text \<open>\<open>Object.entries(v)\<close> for a value that is not \<open>null\<close>.\<close>

fun entries :: "json \<Rightarrow> (string \<times> json) list" where
  "entries (JObj kvs) = kvs"
| "entries (JArr xs) = indexed 0 xs"
| "entries (JStr s) = indexed 0 (map (\<lambda>c. JStr [c]) s)"
| "entries v = []"

section \<open>The board\<close>

text \<open>
  The V2 state shape of the source: \<open>{ version: 2, lists: [{ id, title, cardIds }],
  cards: { [cardId]: { id, title, createdAt, category, dueDate } } }\<close>. The fields of a
  list and of a card hold whatever value the program stored there, so they are JSON
  values. The object \<open>state.cards\<close> is the list \<open>cards\<close> of its own entries and its
  prototype: \<open>cards_proto\<close> is \<open>None\<close> while the prototype is \<open>Object.prototype\<close>,
  and \<open>Some p\<close> once an assignment to the name \<open>__proto__\<close> has made the card object
  \<open>p\<close> the prototype (the prototype of \<open>p\<close> is \<open>Object.prototype\<close>).
\<close>

record board_list =
  l_id :: json
  l_title :: json
  cardIds :: "json list"

record card =
  c_id :: json
  c_title :: json
  createdAt :: json
  category :: json
  dueDate :: json

record board =
  version :: int
  lists :: "board_list list"
  cards :: "(string \<times> card) list"
  cards_proto :: "card option"

text \<open>
  \<open>obj[k] = v\<close> for the object \<open>cards\<close> (own entries and prototype) and a card object
  \<open>v\<close>. For the name \<open>__proto__\<close> on an object without an own entry of that name the
  assignment reaches the accessor of \<open>Object.prototype\<close>: it makes \<open>v\<close> the prototype
  and stores no entry. Every other assignment creates or overwrites the own entry.
\<close>

definition assign_card ::
  "string \<Rightarrow> card \<Rightarrow> (string \<times> card) list \<times> card option
     \<Rightarrow> (string \<times> card) list \<times> card option" where
  "assign_card k v obj =
     (if k = ''__proto__'' \<and> map_of (fst obj) k = None then (fst obj, Some v)
      else (AList.update k v (fst obj), snd obj))"

text \<open>
  \<open>state.cards[k]\<close>, as far as the program uses the value: an own entry is the card
  object; otherwise the prototype chain is searched. Through a prototype \<open>p\<close> the
  names of the five card fields find the field values of \<open>p\<close> and \<open>__proto__\<close> finds
  \<open>p\<close> itself; through \<open>Object.prototype\<close> the inherited names find a function or,
  for \<open>__proto__\<close>, \<open>Object.prototype\<close>. \<open>Foreign\<close> is a truthy value that is no card
  object of the board, \<open>Falsy\<close> is \<open>undefined\<close> or a falsy field value.
\<close>

datatype found = Card card | Prototype card | Foreign | Falsy

definition card_field :: "card \<Rightarrow> string \<Rightarrow> json option" where
  "card_field p k =
     (if k = ''id'' then Some (c_id p)
      else if k = ''title'' then Some (c_title p)
      else if k = ''createdAt'' then Some (createdAt p)
      else if k = ''category'' then Some (category p)
      else if k = ''dueDate'' then Some (dueDate p)
      else None)"

definition cards_get :: "board \<Rightarrow> string \<Rightarrow> found" where
  "cards_get state k =
     (case map_of (cards state) k of
        Some c \<Rightarrow> Card c
      | None \<Rightarrow>
          (case cards_proto state of
             Some p \<Rightarrow>
               if k = ''__proto__'' then Prototype p
               else (case card_field p k of
                       Some v \<Rightarrow> if truthy v then Foreign else Falsy
                     | None \<Rightarrow> if k \<in> set OBJECT_PROTOTYPE then Foreign else Falsy)
           | None \<Rightarrow> if k \<in> set OBJECT_PROTOTYPE then Foreign else Falsy))"

definition CATEGORY_OPTIONS :: "string list" where
  "CATEGORY_OPTIONS = [''assignment'', ''lab'', ''project'', ''mod'', ''unfinished'']"

text \<open>\<open>CATEGORY_OPTIONS.some((x) => x.key === v)\<close> for a value \<open>v\<close> that may be undefined.\<close>

fun is_category :: "json option \<Rightarrow> bool" where
  "is_category (Some (JStr s)) = (s \<in> set CATEGORY_OPTIONS)"
| "is_category v = False"

section \<open>Import normalization\<close>

text \<open>
  \<open>normalizeImportedState(parsed)\<close>. The results of \<open>uid("list")\<close> and \<open>nowISO()\<close>
  are inputs: \<open>uid i\<close> is the identifier generated for the list at index \<open>i\<close>, should it
  need one, and \<open>nowISO i\<close> the time read for the \<open>i\<close>-th card entry.

  \<open>import_list\<close> is the callback of \<open>lists.map\<close>; the same callback is written out a
  second time in \<open>migrateFromOldState\<close>.
\<close>

definition import_list :: "string \<Rightarrow> json \<Rightarrow> error + board_list" where
  "import_list u l =
     (if l = JNull then Inl TypeError
      else Inr \<lparr> l_id = nullish (property l ''id'') (JStr u),
                 l_title = nullish (property l ''title'') (JStr ''Untitled''),
                 cardIds = array_or_empty (property l ''cardIds'') \<rparr>)"

fun import_lists :: "(nat \<Rightarrow> string) \<Rightarrow> nat \<Rightarrow> json list \<Rightarrow> error + board_list list" where
  "import_lists uid i [] = Inr []"
| "import_lists uid i (l # ls) =
     (case import_list (uid i) l of
        Inl e \<Rightarrow> Inl e
      | Inr r \<Rightarrow> (case import_lists uid (Suc i) ls of
                    Inl e \<Rightarrow> Inl e
                  | Inr rs \<Rightarrow> Inr (r # rs)))"

definition import_card :: "string \<Rightarrow> string \<Rightarrow> json \<Rightarrow> card" where
  "import_card now k c =
     \<lparr> c_id = nullish (property c ''id'') (JStr k),
       c_title = nullish (property c ''title'') (JStr ''Untitled''),
       createdAt = nullish (property c ''createdAt'') (JStr now),
       category = (case property c ''category'' of
                     Some v \<Rightarrow> if is_category (Some v) then v else JStr ''project''
                   | None \<Rightarrow> JStr ''project''),
       dueDate = (case property c ''dueDate'' of Some (JStr d) \<Rightarrow> JStr d | _ \<Rightarrow> JNull) \<rparr>"

text \<open>
  The loop over \<open>Object.entries(cards)\<close>; \<open>out\<close> is the object \<open>out.cards\<close>, own
  entries and prototype.
\<close>

fun import_cards ::
  "(nat \<Rightarrow> string) \<Rightarrow> nat \<Rightarrow> (string \<times> json) list
     \<Rightarrow> (string \<times> card) list \<times> card option
     \<Rightarrow> error + (string \<times> card) list \<times> card option" where
  "import_cards nowISO i [] out = Inr out"
| "import_cards nowISO i ((k, c) # es) out =
     (if c = JNull then Inl TypeError
      else import_cards nowISO (Suc i) es (assign_card k (import_card (nowISO i) k c) out))"

definition normalizeImportedState ::
  "(nat \<Rightarrow> string) \<Rightarrow> (nat \<Rightarrow> string) \<Rightarrow> json \<Rightarrow> error + board" where
  "normalizeImportedState uid nowISO parsed =
     (if \<not> truthy parsed \<or> typeof parsed \<noteq> ''object'' then Inl InvalidFile
      else
        let ls = array_or_empty (property parsed ''lists'');
            cs = (case property parsed ''cards'' of
                    Some c \<Rightarrow> if truthy c \<and> typeof c = ''object'' then c else JObj []
                  | None \<Rightarrow> JObj [])
        in case import_lists uid 0 ls of
             Inl e \<Rightarrow> Inl e
           | Inr out_lists \<Rightarrow>
               (case import_cards nowISO 0 (entries cs) ([], None) of
                  Inl e \<Rightarrow> Inl e
                | Inr out_cards \<Rightarrow>
                    Inr \<lparr> version = 2, lists = out_lists, cards = fst out_cards,
                          cards_proto = snd out_cards \<rparr>))"

text \<open>
  The \<open>onload\<close> handler of \<open>importBoardFromFile\<close>. Its input is what
  \<open>JSON.parse(String(reader.result))\<close> did: it threw, or it returned a value. The
  handler returns the new value of \<open>state\<close> and what the user is told; every exception
  of the \<open>try\<close> block ends in the \<open>catch\<close> branch (toast and alert), with \<open>state\<close>
  not assigned. Failures of \<open>localStorage\<close> and of the renderer are not modelled.
\<close>

datatype outcome = Imported | ImportFailed

definition reader_onload ::
  "(nat \<Rightarrow> string) \<Rightarrow> (nat \<Rightarrow> string) \<Rightarrow> error + json \<Rightarrow> board \<Rightarrow> board \<times> outcome" where
  "reader_onload uid nowISO parse_result state =
     (case parse_result of
        Inl e \<Rightarrow> (state, ImportFailed)
      | Inr parsed \<Rightarrow>
          (case normalizeImportedState uid nowISO parsed of
             Inl e \<Rightarrow> (state, ImportFailed)
           | Inr normalized \<Rightarrow> (normalized, Imported)))"

section \<open>Export\<close>

text \<open>
  \<open>exportBoard\<close> writes \<open>JSON.stringify(state, null, 2)\<close>. The document is modelled as
  the JSON value that text denotes, which is the value \<open>JSON.parse\<close> gives back for it:
  every own field of the state, in the order of the state shape. \<open>JSON.stringify\<close>
  writes own properties only, so the prototype of \<open>cards\<close> leaves no trace.
\<close>

definition list_to_json :: "board_list \<Rightarrow> json" where
  "list_to_json l =
     JObj [(''id'', l_id l), (''title'', l_title l), (''cardIds'', JArr (cardIds l))]"

definition card_to_json :: "card \<Rightarrow> json" where
  "card_to_json c =
     JObj [(''id'', c_id c), (''title'', c_title c), (''createdAt'', createdAt c),
           (''category'', category c), (''dueDate'', dueDate c)]"

definition exportBoard :: "board \<Rightarrow> json" where
  "exportBoard state =
     JObj [(''version'', JNum (version state)),
           (''lists'', JArr (map list_to_json (lists state))),
           (''cards'', JObj (map (\<lambda>(k, c). (k, card_to_json c)) (cards state)))]"

section \<open>Legacy migration and start-up\<close>

text \<open>
  \<open>loadOldState\<close>: \<open>None\<close> when the legacy key holds nothing, otherwise what
  \<open>JSON.parse\<close> did with the stored text. Every failure is \<open>null\<close>.
\<close>

definition loadOldState :: "(error + json) option \<Rightarrow> json" where
  "loadOldState stored =
     (case stored of None \<Rightarrow> JNull | Some (Inl e) \<Rightarrow> JNull | Some (Inr v) \<Rightarrow> v)"

text \<open>The guard \<open>!old || !old.lists || !old.cards\<close>, negated.\<close>

definition plausible :: "json \<Rightarrow> bool" where
  "plausible old =
     (truthy old
      \<and> (case property old ''lists'' of Some v \<Rightarrow> truthy v | None \<Rightarrow> False)
      \<and> (case property old ''cards'' of Some v \<Rightarrow> truthy v | None \<Rightarrow> False))"

definition migrate_card :: "string \<Rightarrow> string \<Rightarrow> json \<Rightarrow> card" where
  "migrate_card now k c =
     \<lparr> c_id = nullish (property c ''id'') (JStr k),
       c_title = nullish (property c ''title'') (JStr ''Untitled''),
       createdAt = nullish (property c ''createdAt'') (JStr now),
       category = JStr ''project'',
       dueDate = JNull \<rparr>"

fun migrate_cards ::
  "(nat \<Rightarrow> string) \<Rightarrow> nat \<Rightarrow> (string \<times> json) list
     \<Rightarrow> (string \<times> card) list \<times> card option
     \<Rightarrow> error + (string \<times> card) list \<times> card option" where
  "migrate_cards nowISO i [] out = Inr out"
| "migrate_cards nowISO i ((k, c) # es) out =
     (if c = JNull then Inl TypeError
      else migrate_cards nowISO (Suc i) es (assign_card k (migrate_card (nowISO i) k c) out))"

text \<open>
  Lines 105 to 123 of \<open>migrateFromOldState\<close>, for a plausible \<open>old\<close>: the object
  \<open>migrated\<close>. \<open>old.lists.map\<close> is a function only when \<open>old.lists\<close> is an array;
  calling it on any other truthy value throws a TypeError.
\<close>

definition migrated :: "(nat \<Rightarrow> string) \<Rightarrow> (nat \<Rightarrow> string) \<Rightarrow> json \<Rightarrow> error + board" where
  "migrated uid nowISO old =
     (case property old ''lists'' of
        Some (JArr ls) \<Rightarrow>
          (case import_lists uid 0 ls of
             Inl e \<Rightarrow> Inl e
           | Inr out_lists \<Rightarrow>
               (case migrate_cards nowISO 0
                       (case property old ''cards'' of Some c \<Rightarrow> entries c | None \<Rightarrow> [])
                       ([], None) of
                  Inl e \<Rightarrow> Inl e
                | Inr out_cards \<Rightarrow>
                    Inr \<lparr> version = 2, lists = out_lists, cards = fst out_cards,
                          cards_proto = snd out_cards \<rparr>))
      | _ \<Rightarrow> Inl TypeError)"

text \<open>
  \<open>migrateFromOldState(old)\<close>. After building \<open>migrated\<close> the function assigns the
  variable \<open>state\<close> (line 126) and then reads it in \<open>saveStateV2\<close>. \<open>state\<close> is
  declared by \<open>let state = loadStateV2() ?? migrateFromOldState(loadOldState()) ??
  starterStateV2()\<close> (line 32); until that declaration has finished, an assignment to
  \<open>state\<close> throws a ReferenceError. \<open>state_initialised\<close> says whether the declaration
  has finished when the function is called. \<open>Inr None\<close> is the result \<open>null\<close>.
\<close>

definition migrateFromOldState ::
  "(nat \<Rightarrow> string) \<Rightarrow> (nat \<Rightarrow> string) \<Rightarrow> bool \<Rightarrow> json \<Rightarrow> error + board option" where
  "migrateFromOldState uid nowISO state_initialised old =
     (if \<not> plausible old then Inr None
      else case migrated uid nowISO old of
             Inl e \<Rightarrow> Inl e
           | Inr m \<Rightarrow> if state_initialised then Inr (Some m) else Inl ReferenceError)"

text \<open>
  The initialiser of \<open>state\<close> on line 32, the only call of \<open>migrateFromOldState\<close>. It
  stands at the top level of the script, outside every \<open>try\<close>: an \<open>Inl\<close> result is an
  exception nothing catches. \<open>stored_v2\<close> is the result of \<open>loadStateV2()\<close>,
  \<open>legacy\<close> the content of the legacy key and \<open>starter\<close> the result of
  \<open>starterStateV2()\<close>.
\<close>

definition initial_state ::
  "(nat \<Rightarrow> string) \<Rightarrow> (nat \<Rightarrow> string) \<Rightarrow> board option \<Rightarrow> (error + json) option \<Rightarrow> board
     \<Rightarrow> error + board" where
  "initial_state uid nowISO stored_v2 legacy starter =
     (case stored_v2 of
        Some b \<Rightarrow> Inr b
      | None \<Rightarrow>
          (case migrateFromOldState uid nowISO False (loadOldState legacy) of
             Inl e \<Rightarrow> Inl e
           | Inr (Some b) \<Rightarrow> Inr b
           | Inr None \<Rightarrow> Inr starter))"

section \<open>Mutation API\<close>

text \<open>
  Each operation takes the board in \<open>state\<close> and returns the board it leaves there.
  Identifiers passed in are strings. What the user answers to \<open>prompt\<close> and
  \<open>confirm\<close>, and what \<open>uid\<close> and \<open>nowISO\<close> return, are arguments: a cancelled
  prompt is \<open>None\<close>.

  The guard \<open>if (!card) return\<close> of \<open>editCard\<close>, \<open>deleteCard\<close> and
  \<open>moveCardToList\<close> tests the value \<open>state.cards[cardId]\<close>, found through the
  prototype chain (\<open>cards_get\<close>); it lets every truthy value pass.

  \<open>trim\<close> strips the white space and line terminators of JavaScript among the code
  units of the type: tab, line feed, vertical tab, form feed, carriage return, space
  and the no-break space U+00A0. \<open>toLowerCase\<close> maps the capital letters among them:
  \<open>A\<close> to \<open>Z\<close> and U+00C0 to U+00DE without the multiplication sign U+00D7.

  \<open>state.lists.find(p)\<close> returns the first list object satisfying \<open>p\<close>, and the code
  then assigns to fields of that object; \<open>update_first p f\<close> is that assignment.
\<close>

fun update_first :: "('a \<Rightarrow> bool) \<Rightarrow> ('a \<Rightarrow> 'a) \<Rightarrow> 'a list \<Rightarrow> 'a list" where
  "update_first p f [] = []"
| "update_first p f (x # xs) = (if p x then f x # xs else x # update_first p f xs)"

definition is_space :: "char \<Rightarrow> bool" where
  "is_space c = (of_char c \<in> {9, 10, 11, 12, 13, 32, 160 :: nat})"

definition trim :: "string \<Rightarrow> string" where
  "trim s = rev (dropWhile is_space (rev (dropWhile is_space s)))"

definition is_capital :: "char \<Rightarrow> bool" where
  "is_capital c =
     (65 \<le> (of_char c :: nat) \<and> (of_char c :: nat) \<le> 90
      \<or> 192 \<le> (of_char c :: nat) \<and> (of_char c :: nat) \<le> 222 \<and> (of_char c :: nat) \<noteq> 215)"

definition toLowerCase :: "string \<Rightarrow> string" where
  "toLowerCase s = map (\<lambda>c. if is_capital c then char_of (of_char c + 32 :: nat) else c) s"

definition has_id :: "string \<Rightarrow> board_list \<Rightarrow> bool" where
  "has_id listId l = (l_id l = JStr listId)"

definition has_card :: "string \<Rightarrow> board_list \<Rightarrow> bool" where
  "has_card cardId l = (JStr cardId \<in> set (cardIds l))"

definition without :: "string \<Rightarrow> board_list \<Rightarrow> board_list" where
  "without cardId l = l\<lparr>cardIds := filter (\<lambda>i. i \<noteq> JStr cardId) (cardIds l)\<rparr>"

definition push :: "string \<Rightarrow> board_list \<Rightarrow> board_list" where
  "push cardId l = l\<lparr>cardIds := cardIds l @ [JStr cardId]\<rparr>"

definition createList :: "string \<Rightarrow> string \<Rightarrow> board \<Rightarrow> board" where
  "createList title new_id state =
     state\<lparr>lists := lists state @ [\<lparr> l_id = JStr new_id, l_title = JStr title, cardIds = [] \<rparr>]\<rparr>"

definition renameList :: "string \<Rightarrow> string option \<Rightarrow> board \<Rightarrow> board" where
  "renameList listId next state =
     (case find (has_id listId) (lists state) of
        None \<Rightarrow> state
      | Some l \<Rightarrow>
          (case next of
             None \<Rightarrow> state
           | Some n \<Rightarrow>
               if trim n = [] then state
               else state\<lparr>lists :=
                      update_first (has_id listId) (\<lambda>l. l\<lparr>l_title := JStr (trim n)\<rparr>) (lists state)\<rparr>))"

definition deleteList :: "string \<Rightarrow> bool \<Rightarrow> board \<Rightarrow> board" where
  "deleteList listId ok state =
     (case find (has_id listId) (lists state) of
        None \<Rightarrow> state
      | Some l \<Rightarrow>
          if \<not> ok then state
          else state\<lparr>cards := fold (\<lambda>cid cs. AList.delete (to_property_key cid) cs)
                                   (cardIds l) (cards state),
                      lists := filter (\<lambda>l. \<not> has_id listId l) (lists state)\<rparr>)"

definition createCard ::
  "string \<Rightarrow> string \<Rightarrow> string option \<Rightarrow> string option \<Rightarrow> string \<Rightarrow> string \<Rightarrow> board \<Rightarrow> board" where
  "createCard listId title cat due new_id now state =
     (case find (has_id listId) (lists state) of
        None \<Rightarrow> state
      | Some l \<Rightarrow>
          let obj = assign_card new_id
                      \<lparr> c_id = JStr new_id, c_title = JStr title, createdAt = JStr now,
                        category = (case cat of None \<Rightarrow> JStr ''project'' | Some c \<Rightarrow> JStr c),
                        dueDate = (case due of None \<Rightarrow> JNull | Some d \<Rightarrow> JStr d) \<rparr>
                      (cards state, cards_proto state)
          in state\<lparr>cards := fst obj, cards_proto := snd obj,
                   lists := update_first (has_id listId) (push new_id) (lists state)\<rparr>)"

text \<open>
  The part of \<open>editCard\<close> after the guard, for the object \<open>card\<close> that was found:
  the three prompts and the three assignments to \<open>card\<close>. \<open>None\<close> is the early
  return (title prompt cancelled, or title empty after \<open>trim\<close>).
\<close>

definition edited ::
  "string option \<Rightarrow> string option \<Rightarrow> string option \<Rightarrow> card \<Rightarrow> card option" where
  "edited nextTitle catPrompt duePrompt c =
     (case nextTitle of
        None \<Rightarrow> None
      | Some t \<Rightarrow>
          if trim t = [] then None
          else
            let cat = toLowerCase (trim (case catPrompt of None \<Rightarrow> [] | Some s \<Rightarrow> s));
                valid = (if cat \<in> set CATEGORY_OPTIONS then JStr cat else category c);
                dueClean = trim (case duePrompt of None \<Rightarrow> [] | Some s \<Rightarrow> s);
                due = (if dueClean \<noteq> [] then JStr dueClean else JNull)
            in Some (c\<lparr>c_title := JStr (trim t), category := valid, dueDate := due\<rparr>))"

text \<open>
  \<open>editCard\<close>. The assignments change the object that the lookup found: an own card,
  or the prototype of \<open>cards\<close>. For a \<open>Foreign\<close> value they land on a function, on
  \<open>Object.prototype\<close> or on a field value of the prototype of \<open>cards\<close>; no list and
  no card of the board changes, nor the truthiness of any field of that prototype. An
  assignment to \<open>Object.prototype\<close> itself (the lookup of \<open>__proto__\<close> while
  \<open>cards_proto\<close> is \<open>None\<close>) adds properties that later lookups would inherit; the
  program state after it is outside this model.
\<close>

definition editCard ::
  "string \<Rightarrow> string option \<Rightarrow> string option \<Rightarrow> string option \<Rightarrow> board \<Rightarrow> board" where
  "editCard cardId nextTitle catPrompt duePrompt state =
     (case cards_get state cardId of
        Falsy \<Rightarrow> state
      | Foreign \<Rightarrow> state
      | Card c \<Rightarrow>
          (case edited nextTitle catPrompt duePrompt c of
             None \<Rightarrow> state
           | Some c' \<Rightarrow> state\<lparr>cards := AList.update cardId c' (cards state)\<rparr>)
      | Prototype p \<Rightarrow>
          (case edited nextTitle catPrompt duePrompt p of
             None \<Rightarrow> state
           | Some p' \<Rightarrow> state\<lparr>cards_proto := Some p'\<rparr>))"

definition deleteCard :: "string \<Rightarrow> bool \<Rightarrow> board \<Rightarrow> board" where
  "deleteCard cardId ok state =
     (if cards_get state cardId = Falsy then state
      else if \<not> ok then state
      else state\<lparr>lists := map (without cardId) (lists state),
                  cards := AList.delete cardId (cards state)\<rparr>)"

definition moveCardToList :: "string \<Rightarrow> string \<Rightarrow> board \<Rightarrow> board" where
  "moveCardToList cardId targetListId state =
     (if cards_get state cardId = Falsy then state
      else
        (case find (has_id targetListId) (lists state) of
           None \<Rightarrow> state
         | Some toList \<Rightarrow>
             state\<lparr>lists :=
               update_first (has_id targetListId)
                 (\<lambda>l. if has_card cardId l then l else push cardId l)
                 (update_first (has_card cardId) (without cardId) (lists state))\<rparr>))"

text \<open>A call of the Mutation API with everything it reads from outside the board.\<close>

datatype call =
    CreateList string string
  | RenameList string "string option"
  | DeleteList string bool
  | CreateCard string string "string option" "string option" string string
  | EditCard string "string option" "string option" "string option"
  | DeleteCard string bool
  | MoveCardToList string string

fun apply_call :: "call \<Rightarrow> board \<Rightarrow> board" where
  "apply_call (CreateList title new_id) b = createList title new_id b"
| "apply_call (RenameList listId next) b = renameList listId next b"
| "apply_call (DeleteList listId ok) b = deleteList listId ok b"
| "apply_call (CreateCard listId title cat due new_id now) b =
     createCard listId title cat due new_id now b"
| "apply_call (EditCard cardId t c d) b = editCard cardId t c d b"
| "apply_call (DeleteCard cardId ok) b = deleteCard cardId ok b"
| "apply_call (MoveCardToList cardId target) b = moveCardToList cardId target b"

fun run :: "call list \<Rightarrow> board \<Rightarrow> board" where
  "run [] b = b"
| "run (c # cs) b = run cs (apply_call c b)"

section \<open>Invariants of the data model\<close>

text \<open>
  Referential integrity: every element of every list's \<open>cardIds\<close> is a string that is
  a key of \<open>cards\<close>.
\<close>

definition referential_integrity :: "board \<Rightarrow> bool" where
  "referential_integrity b =
     list_all (\<lambda>l. list_all (\<lambda>c. c \<in> set (map (JStr \<circ> fst) (cards b))) (cardIds l)) (lists b)"

text \<open>The number of lists whose \<open>cardIds\<close> holds the value \<open>c\<close>.\<close>

definition holders :: "json \<Rightarrow> board \<Rightarrow> nat" where
  "holders c b = length (filter (\<lambda>l. c \<in> set (cardIds l)) (lists b))"

text \<open>Every card id that occurs in some list occurs in at most one list.\<close>

definition at_most_one_list :: "board \<Rightarrow> bool" where
  "at_most_one_list b =
     list_all (\<lambda>c. holders c b \<le> 1) (concat (map cardIds (lists b)))"

text \<open>
  The lookup of \<open>k\<close> finds an own card or no truthy value: \<open>k\<close> is a key of
  \<open>cards\<close>, or the prototype chain of \<open>cards\<close> has no truthy value under the name
  \<open>k\<close>.
\<close>

definition own_or_absent :: "board \<Rightarrow> string \<Rightarrow> bool" where
  "own_or_absent b k =
     (case cards_get b k of Card c \<Rightarrow> True | Falsy \<Rightarrow> True | Prototype p \<Rightarrow> False
      | Foreign \<Rightarrow> False)"

text \<open>
  \<open>uid\<close> builds an identifier \<open>card_...\<close> from \<open>Math.random()\<close> and the clock. A
  run is regular when every \<open>createCard\<close> of it is handed an id that no list holds yet
  (and that is not the name \<open>__proto__\<close>), every \<open>moveCardToList\<close> names an own card
  or nothing, and no \<open>editCard\<close> finds a foreign value.
\<close>

fun regular_calls :: "call list \<Rightarrow> board \<Rightarrow> bool" where
  "regular_calls [] b = True"
| "regular_calls (CreateCard listId title cat due new_id now # cs) b =
     (holders (JStr new_id) b = 0 \<and> new_id \<noteq> ''__proto__''
      \<and> regular_calls cs (createCard listId title cat due new_id now b))"
| "regular_calls (MoveCardToList cardId target # cs) b =
     (own_or_absent b cardId \<and> regular_calls cs (moveCardToList cardId target b))"
| "regular_calls (EditCard cardId t c d # cs) b =
     (cards_get b cardId \<noteq> Foreign \<and> regular_calls cs (editCard cardId t c d b))"
| "regular_calls (c # cs) b = regular_calls cs (apply_call c b)"

text \<open>
  The typing part of the data model: version 2, identifiers, titles and timestamps are
  strings, a category is one of \<open>CATEGORY_OPTIONS\<close>, a due date is a string or
  \<open>null\<close>, the keys of \<open>cards\<close> are distinct, and the prototype of \<open>cards\<close> is
  \<open>Object.prototype\<close>.
\<close>

fun is_string :: "json \<Rightarrow> bool" where
  "is_string (JStr s) = True"
| "is_string v = False"

definition well_typed_list :: "board_list \<Rightarrow> bool" where
  "well_typed_list l = (is_string (l_id l) \<and> is_string (l_title l) \<and> list_all is_string (cardIds l))"

definition well_typed_card :: "card \<Rightarrow> bool" where
  "well_typed_card c =
     (is_string (c_id c) \<and> is_string (c_title c) \<and> is_string (createdAt c)
      \<and> is_category (Some (category c))
      \<and> (is_string (dueDate c) \<or> dueDate c = JNull))"

definition well_typed :: "board \<Rightarrow> bool" where
  "well_typed b =
     (version b = 2 \<and> list_all well_typed_list (lists b)
      \<and> list_all (\<lambda>(k, c). well_typed_card c) (cards b)
      \<and> distinct (map fst (cards b))
      \<and> cards_proto b = None)"

text \<open>
  \<open>first_at p xs i\<close>: position \<open>i\<close> holds the first element of \<open>xs\<close> that satisfies
  \<open>p\<close>, the object \<open>xs.find(p)\<close> returns.
\<close>

definition first_at :: "('a \<Rightarrow> bool) \<Rightarrow> 'a list \<Rightarrow> nat \<Rightarrow> bool" where
  "first_at p xs i = (i < length xs \<and> p (xs ! i) \<and> find p (take i xs) = None)"

definition integrity :: "board \<Rightarrow> bool" where
  "integrity b = (referential_integrity b \<and> at_most_one_list b)"

section \<open>Example data\<close>

definition list_todo :: board_list where
  "list_todo = \<lparr> l_id = JStr ''L1'', l_title = JStr ''Todo'',
                 cardIds = [JStr ''c1'', JStr ''c2''] \<rparr>"

definition list_done :: board_list where
  "list_done = \<lparr> l_id = JStr ''L2'', l_title = JStr ''Done'', cardIds = [JStr ''c3''] \<rparr>"

definition example_card :: "string \<Rightarrow> string \<Rightarrow> card" where
  "example_card k cat =
     \<lparr> c_id = JStr k, c_title = JStr ''Write report'', createdAt = JStr ''2024-01-01T00:00:00.000Z'',
       category = JStr cat, dueDate = JNull \<rparr>"

definition example_board :: board where
  "example_board =
     \<lparr> version = 2, lists = [list_todo, list_done],
       cards = [(''c1'', example_card ''c1'' ''lab''), (''c2'', example_card ''c2'' ''mod''),
                (''c3'', example_card ''c3'' ''project'')],
       cards_proto = None \<rparr>"

definition example_calls :: "call list" where
  "example_calls =
     [CreateCard ''L2'' ''Read notes'' None None ''c4'' ''2024-01-02T00:00:00.000Z'',
      MoveCardToList ''c1'' ''L2'',
      DeleteList ''L1'' True]"

text \<open>A document whose only list names a card that the document does not hold.\<close>

definition ghost_doc :: json where
  "ghost_doc =
     JObj [(''lists'', JArr [JObj [(''id'', JStr ''L1''), (''title'', JStr ''Todo''),
                                   (''cardIds'', JArr [JStr ''ghost''])]]),
           (''cards'', JObj [])]"

definition ghost_board :: board where
  "ghost_board =
     \<lparr> version = 2,
       lists = [\<lparr> l_id = JStr ''L1'', l_title = JStr ''Todo'', cardIds = [JStr ''ghost''] \<rparr>],
       cards = [], cards_proto = None \<rparr>"

text \<open>A document with one card whose category is the string \<open>urgent\<close>.\<close>

definition urgent_doc :: json where
  "urgent_doc =
     JObj [(''lists'', JArr []),
           (''cards'', JObj [(''C1'', JObj [(''title'', JStr ''x''), (''category'', JStr ''urgent'')])])]"

text \<open>The legacy data \<open>{lists:[{id:"L1"}], cards:{"C1":{title:"x"}}}\<close>.\<close>

definition legacy_example :: json where
  "legacy_example =
     JObj [(''lists'', JArr [JObj [(''id'', JStr ''L1'')]]),
           (''cards'', JObj [(''C1'', JObj [(''title'', JStr ''x'')])])]"

text \<open>
  A document whose card, stored under the key \<open>k1\<close>, carries the id \<open>toString\<close>, and
  the board that import makes of it. The renderer puts the card's \<open>id\<close> field into the
  drag data and into the handlers of the card.
\<close>

definition shadow_doc :: json where
  "shadow_doc =
     JObj [(''lists'', JArr [JObj [(''id'', JStr ''L1''), (''title'', JStr ''Todo''),
                                   (''cardIds'', JArr [JStr ''k1''])],
                             JObj [(''id'', JStr ''L2''), (''title'', JStr ''Done''),
                                   (''cardIds'', JArr [])]]),
           (''cards'', JObj [(''k1'', JObj [(''id'', JStr ''toString''), (''title'', JStr ''x''),
                                            (''createdAt'', JStr ''2024-01-01T00:00:00.000Z'')])])]"

definition shadow_board :: board where
  "shadow_board =
     \<lparr> version = 2,
       lists = [\<lparr> l_id = JStr ''L1'', l_title = JStr ''Todo'', cardIds = [JStr ''k1''] \<rparr>,
                \<lparr> l_id = JStr ''L2'', l_title = JStr ''Done'', cardIds = [] \<rparr>],
       cards = [(''k1'', \<lparr> c_id = JStr ''toString'', c_title = JStr ''x'',
                            createdAt = JStr ''2024-01-01T00:00:00.000Z'',
                            category = JStr ''project'', dueDate = JNull \<rparr>)],
       cards_proto = None \<rparr>"

text \<open>
  A board as \<open>loadStateV2\<close> returns it for a stored document in which a card has the
  id \<open>__proto__\<close>: \<open>JSON.parse\<close> makes the key an own property.
\<close>

definition proto_board :: board where
  "proto_board =
     \<lparr> version = 2,
       lists = [\<lparr> l_id = JStr ''L1'', l_title = JStr ''Todo'',
                  cardIds = [JStr ''c1'', JStr ''__proto__''] \<rparr>],
       cards = [(''c1'', example_card ''c1'' ''lab''),
                (''__proto__'', example_card ''__proto__'' ''mod'')],
       cards_proto = None \<rparr>"

section \<open>Lists and the first matching element\<close>

lemma find_Some_in: "find p xs = Some x \<Longrightarrow> x \<in> set xs \<and> p x"
  by (induction xs) (auto split: if_splits)

lemma find_has_id_None: "(find (has_id t) xs = None) = (JStr t \<notin> set (map l_id xs))"
  by (induction xs) (auto simp: has_id_def)

lemma filter_absent: "x \<notin> set xs \<Longrightarrow> filter (\<lambda>i. i \<noteq> x) xs = xs"
  by (induction xs) auto

lemma filter_filter_le: "length (filter P (filter Q xs)) \<le> length (filter P xs)"
  by (induction xs) simp_all

lemma two_holders:
  assumes "x \<in> set xs" "y \<in> set xs" "x \<noteq> y" "P x" "P y"
  shows "2 \<le> length (filter P xs)"
proof -
  have "{x, y} \<subseteq> set (filter P xs)" using assms by simp
  then have "card {x, y} \<le> card (set (filter P xs))" by (intro card_mono) simp_all
  also have "\<dots> \<le> length (filter P xs)" by (rule card_length)
  finally show ?thesis using assms(3) by simp
qed

lemma update_first_length: "length (update_first p f xs) = length xs"
  by (induction xs) simp_all

lemma update_first_map: "(\<And>x. g (f x) = g x) \<Longrightarrow> map g (update_first p f xs) = map g xs"
  by (induction xs) simp_all

lemma update_first_ids:
  "set (concat (map cardIds (update_first p f ls)))
     \<subseteq> set (concat (map cardIds ls)) \<union> (\<Union>l \<in> set ls. set (cardIds (f l)))"
  by (induction ls) auto

lemma update_first_count_same:
  "(\<And>l. (x \<in> set (cardIds (f l))) = (x \<in> set (cardIds l))) \<Longrightarrow>
   length (filter (\<lambda>l. x \<in> set (cardIds l)) (update_first p f ls))
     = length (filter (\<lambda>l. x \<in> set (cardIds l)) ls)"
  by (induction ls) simp_all

lemma update_first_count_le:
  "length (filter (\<lambda>l. x \<in> set (cardIds l)) (update_first p f ls))
     \<le> Suc (length (filter (\<lambda>l. x \<in> set (cardIds l)) ls))"
  by (induction ls) simp_all

lemma update_first_changes:
  "i < length xs \<Longrightarrow> update_first p f xs ! i \<noteq> xs ! i \<Longrightarrow> first_at p xs i"
proof (induction xs arbitrary: i)
  case Nil
  then show ?case by simp
next
  case (Cons x xs)
  show ?case
  proof (cases i)
    case 0
    with Cons.prems show ?thesis by (auto simp: first_at_def split: if_splits)
  next
    case (Suc j)
    with Cons.prems have "\<not> p x" "j < length xs" "update_first p f xs ! j \<noteq> xs ! j"
      by (auto split: if_splits)
    with Cons.IH [of j] Suc show ?thesis by (simp add: first_at_def)
  qed
qed

lemma first_at_has_id:
  "map l_id xs = map l_id ys \<Longrightarrow> first_at (has_id t) xs i = first_at (has_id t) ys i"
proof (induction xs arbitrary: ys i)
  case Nil
  then show ?case by (simp add: first_at_def)
next
  case (Cons x xs)
  then obtain y ys' where ys: "ys = y # ys'" "l_id x = l_id y" "map l_id xs = map l_id ys'"
    by (cases ys) auto
  show ?case
  proof (cases i)
    case 0
    with ys show ?thesis by (simp add: first_at_def has_id_def)
  next
    case (Suc j)
    with ys Cons.IH [OF ys(3), of j] show ?thesis
      by (auto simp: first_at_def has_id_def)
  qed
qed

section \<open>Removing and appending a card id\<close>

lemma without_l_id: "l_id (without c l) = l_id l"
  by (simp add: without_def)

lemma without_l_title: "l_title (without c l) = l_title l"
  by (simp add: without_def)

lemma add_l_id: "l_id (if has_card c l then l else push c l) = l_id l"
  by (simp add: push_def)

lemma add_l_title: "l_title (if has_card c l then l else push c l) = l_title l"
  by (simp add: push_def)

lemma has_id_without: "has_id t (without c l) = has_id t l"
  by (simp add: has_id_def without_def)

lemma has_id_push: "has_id t (push c l) = has_id t l"
  by (simp add: has_id_def push_def)

lemma not_has_card_without: "\<not> has_card c (without c l)"
  by (simp add: has_card_def without_def)

lemma without_count:
  "length (filter (\<lambda>l. JStr c \<in> set (cardIds l)) (update_first (has_card c) (without c) ls))
     = length (filter (\<lambda>l. JStr c \<in> set (cardIds l)) ls) - 1"
  by (induction ls) (simp_all add: has_card_def without_def)

lemma no_holder:
  "length (filter (\<lambda>l. JStr c \<in> set (cardIds l)) ls) = 0 \<Longrightarrow> find (has_card c) ls = None"
  by (induction ls) (auto simp: has_card_def split: if_splits)

lemma add_fixed:
  "find (has_id t) xs = Some l \<Longrightarrow> has_card c l \<Longrightarrow>
   update_first (has_id t) (\<lambda>l. if has_card c l then l else push c l) xs = xs"
  by (induction xs) (auto split: if_splits)

lemma add_is_push:
  "find (has_card c) xs = None \<Longrightarrow>
   update_first p (\<lambda>l. if has_card c l then l else push c l) xs = update_first p (push c) xs"
  by (induction xs) (auto split: if_splits)

lemma without_undoes_push:
  "find (has_card c) xs = None \<Longrightarrow>
   update_first (has_card c) (without c) (update_first p (push c) xs) = xs"
proof (induction xs)
  case Nil
  then show ?case by simp
next
  case (Cons x xs)
  then have x: "\<not> has_card c x" and rest: "find (has_card c) xs = None"
    by (auto split: if_splits)
  from x have "without c (push c x) = x" "has_card c (push c x)"
    by (simp_all add: has_card_def without_def push_def filter_absent)
  with x rest Cons.IH show ?case by simp
qed

lemma push_without_last:
  assumes "cardIds l = xs @ [JStr c]" "JStr c \<notin> set xs"
  shows "push c (without c l) = l"
proof -
  have "cardIds (push c (without c l)) = cardIds l"
    using assms by (simp add: push_def without_def filter_absent)
  then show ?thesis by (simp add: push_def without_def)
qed

lemma target_after_move:
  "find (has_id t) ls = Some l \<Longrightarrow> has_card c l \<Longrightarrow>
   find (has_id t)
     (update_first (has_id t) (\<lambda>l. if has_card c l then l else push c l)
        (update_first (has_card c) (without c) ls))
   = Some (if find (has_card c) ls = Some l then push c (without c l) else l)"
proof (induction ls)
  case Nil
  then show ?case by simp
next
  case (Cons x xs)
  show ?case
  proof (cases "has_card c x")
    case holds: True
    show ?thesis
    proof (cases "has_id t x")
      case True
      with Cons.prems holds show ?thesis
        by (simp add: has_id_without has_id_push not_has_card_without)
    next
      case False
      with Cons.prems have f: "find (has_id t) xs = Some l" by simp
      from False f have "x \<noteq> l" by (auto dest: find_Some_in)
      with False holds f Cons.prems(2) show ?thesis
        by (simp add: has_id_without add_fixed)
    qed
  next
    case False
    with Cons.prems have "\<not> has_id t x" by auto
    with False Cons show ?thesis by simp
  qed
qed

lemma cards_get_lists: "cards_get (b\<lparr>lists := ls\<rparr>) k = cards_get b k"
  by (simp add: cards_get_def cong: option.case_cong)

lemma cards_get_own: "map_of (cards b) k = Some c \<Longrightarrow> cards_get b k = Card c"
  by (simp add: cards_get_def)

lemma own_or_absent_key:
  "own_or_absent b k \<Longrightarrow> cards_get b k \<noteq> Falsy \<Longrightarrow> map_of (cards b) k \<noteq> None"
  by (auto simp: own_or_absent_def cards_get_def split: option.splits if_splits found.splits)

lemma own_or_absent_Falsy:
  "own_or_absent b k \<Longrightarrow> (cards_get b k = Falsy) = (map_of (cards b) k = None)"
  by (auto simp: own_or_absent_def cards_get_def split: option.splits if_splits found.splits)

lemma moveCardToList_lists:
  "cards_get b c \<noteq> Falsy \<Longrightarrow> find (has_id t) (lists b) \<noteq> None \<Longrightarrow>
   moveCardToList c t b
     = b\<lparr>lists := update_first (has_id t) (\<lambda>l. if has_card c l then l else push c l)
                      (update_first (has_card c) (without c) (lists b))\<rparr>"
  by (auto simp: moveCardToList_def)

lemma moveCardToList_noop:
  "cards_get b c = Falsy \<or> find (has_id t) (lists b) = None \<Longrightarrow> moveCardToList c t b = b"
  by (auto simp: moveCardToList_def)

lemma move_twice:
  assumes "holders (JStr c) b \<le> 1"
  shows "moveCardToList c t (moveCardToList c t b) = moveCardToList c t b"
proof (cases "cards_get b c = Falsy \<or> find (has_id t) (lists b) = None")
  case True
  then have "moveCardToList c t b = b" by (rule moveCardToList_noop)
  then show ?thesis by simp
next
  case False
  let ?add = "\<lambda>l. if has_card c l then l else push c l"
  let ?W = "update_first (has_card c) (without c) (lists b)"
  let ?b1 = "moveCardToList c t b"
  from assms have "length (filter (\<lambda>l. JStr c \<in> set (cardIds l)) ?W) = 0"
    unfolding without_count holders_def by simp
  then have none: "find (has_card c) ?W = None" by (rule no_holder)
  from False have b1: "?b1 = b\<lparr>lists := update_first (has_id t) ?add ?W\<rparr>"
    by (intro moveCardToList_lists) simp_all
  then have ls1: "lists ?b1 = update_first (has_id t) (push c) ?W"
    using add_is_push [OF none] by simp
  have "map l_id (lists ?b1) = map l_id ?W"
    unfolding ls1 by (rule update_first_map) (simp add: push_def)
  also have "\<dots> = map l_id (lists b)"
    by (rule update_first_map) (simp add: without_def)
  finally have "(find (has_id t) (lists ?b1) = None) = (find (has_id t) (lists b) = None)"
    by (simp only: find_has_id_None)
  with False have t1: "find (has_id t) (lists ?b1) \<noteq> None" by simp
  from False have c1: "cards_get ?b1 c \<noteq> Falsy"
    unfolding b1 cards_get_lists by simp
  have w: "update_first (has_card c) (without c) (lists ?b1) = ?W"
    unfolding ls1 using none by (rule without_undoes_push)
  have "moveCardToList c t ?b1
      = ?b1\<lparr>lists := update_first (has_id t) ?add
                          (update_first (has_card c) (without c) (lists ?b1))\<rparr>"
    using c1 t1 by (rule moveCardToList_lists)
  also have "\<dots> = ?b1\<lparr>lists := update_first (has_id t) ?add ?W\<rparr>"
    unfolding w ..
  also have "\<dots> = ?b1" unfolding b1 by simp
  finally show ?thesis .
qed

lemma only_holder_is_first:
  assumes "l \<in> set (lists b)" "has_card c l" "holders (JStr c) b \<le> 1"
  shows "find (has_card c) (lists b) = Some l"
proof (cases "find (has_card c) (lists b)")
  case None
  with assms(1,2) show ?thesis by (auto simp: find_None_iff)
next
  case (Some m)
  then have m: "m \<in> set (lists b)" "has_card c m" by (auto dest: find_Some_in)
  have "m = l"
  proof (rule ccontr)
    assume "m \<noteq> l"
    with m assms(1,2) have "2 \<le> holders (JStr c) b"
      unfolding holders_def has_card_def by (intro two_holders [of m _ l]) simp_all
    with assms(3) show False by simp
  qed
  with Some show ?thesis by simp
qed

section \<open>The integrity invariants, unfolded\<close>

lemma referential_integrity_iff:
  "referential_integrity b \<longleftrightarrow>
     set (concat (map cardIds (lists b))) \<subseteq> JStr ` fst ` set (cards b)"
  unfolding referential_integrity_def list_all_iff by (simp add: image_image subset_iff) blast

lemma at_most_one_list_iff: "at_most_one_list b \<longleftrightarrow> (\<forall>c. holders c b \<le> 1)"
proof
  assume a: "at_most_one_list b"
  show "\<forall>c. holders c b \<le> 1"
  proof
    fix c
    show "holders c b \<le> 1"
    proof (cases "c \<in> set (concat (map cardIds (lists b)))")
      case True
      with a show ?thesis unfolding at_most_one_list_def list_all_iff by blast
    next
      case False
      then have "filter (\<lambda>l. c \<in> set (cardIds l)) (lists b) = []"
        by (auto simp: filter_empty_conv)
      then show ?thesis by (simp add: holders_def)
    qed
  qed
next
  assume "\<forall>c. holders c b \<le> 1"
  then show "at_most_one_list b" by (simp add: at_most_one_list_def list_all_iff)
qed

lemma integrity_ids:
  assumes "integrity b" "l \<in> set (lists b)" "c \<in> set (cardIds l)"
  shows "\<exists>k. c = JStr k \<and> k \<in> fst ` set (cards b)"
proof -
  from assms(2,3) have "c \<in> set (concat (map cardIds (lists b)))" by auto
  moreover from assms(1) have "set (concat (map cardIds (lists b))) \<subseteq> JStr ` fst ` set (cards b)"
    unfolding integrity_def referential_integrity_iff by simp
  ultimately show ?thesis by blast
qed

lemma integrity_one: "integrity b \<Longrightarrow> holders c b \<le> 1"
  unfolding integrity_def at_most_one_list_iff by simp

lemma integrityI:
  "set (concat (map cardIds (lists b))) \<subseteq> JStr ` fst ` set (cards b) \<Longrightarrow>
   (\<And>c. holders c b \<le> 1) \<Longrightarrow> integrity b"
  unfolding integrity_def at_most_one_list_iff referential_integrity_iff by simp

lemma integrity_frame:
  assumes m: "map cardIds (lists b') = map cardIds (lists b)"
    and k: "fst ` set (cards b) \<subseteq> fst ` set (cards b')"
    and i: "integrity b"
  shows "integrity b'"
proof -
  have h: "holders c b' = holders c b" for c
  proof -
    have "length (filter (\<lambda>xs. c \<in> set xs) (map cardIds (lists b')))
        = length (filter (\<lambda>xs. c \<in> set xs) (map cardIds (lists b)))"
      using m by simp
    then show ?thesis by (simp add: holders_def filter_map o_def)
  qed
  from i have r: "set (concat (map cardIds (lists b))) \<subseteq> JStr ` fst ` set (cards b)"
    and o: "\<forall>c. holders c b \<le> 1"
    unfolding integrity_def at_most_one_list_iff referential_integrity_iff by simp_all
  from k have "JStr ` fst ` set (cards b) \<subseteq> JStr ` fst ` set (cards b')"
    by (rule image_mono)
  with r have "set (concat (map cardIds (lists b))) \<subseteq> JStr ` fst ` set (cards b')"
    by (rule subset_trans)
  moreover from o have "\<forall>c. holders c b' \<le> 1"
    unfolding h .
  ultimately show ?thesis
    unfolding integrity_def at_most_one_list_iff referential_integrity_iff m by simp
qed

section \<open>Each operation keeps the integrity invariants\<close>

lemma createList_integrity: "integrity b \<Longrightarrow> integrity (createList title new_id b)"
  unfolding integrity_def at_most_one_list_iff referential_integrity_iff
  by (simp add: createList_def holders_def)

lemma renameList_integrity: "integrity b \<Longrightarrow> integrity (renameList listId n b)"
  by (rule integrity_frame [where b = b])
     (auto simp: renameList_def update_first_map split: option.splits)

lemma editCard_integrity: "integrity b \<Longrightarrow> integrity (editCard cardId t c d b)"
proof (rule integrity_frame [where b = b])
  show "map cardIds (lists (editCard cardId t c d b)) = map cardIds (lists b)"
    by (simp add: editCard_def split: found.splits option.splits)
  show "fst ` set (cards b) \<subseteq> fst ` set (cards (editCard cardId t c d b))"
    by (auto simp: editCard_def AList.dom_update split: found.splits option.splits)
qed

lemma fold_delete_keys:
  "fst ` set (fold (\<lambda>cid cs. AList.delete (to_property_key cid) cs) ids al)
     = fst ` set al - to_property_key ` set ids"
proof (induction ids arbitrary: al)
  case Nil
  then show ?case by simp
next
  case (Cons a ids)
  have "fst ` set (AList.delete (to_property_key a) al) = fst ` set al - {to_property_key a}"
    by (metis AList.delete_keys list.set_map set_removeAll)
  with Cons show ?case by auto
qed

lemma deleteList_integrity:
  assumes "integrity b"
  shows "integrity (deleteList listId ok b)"
proof (cases "find (has_id listId) (lists b)")
  case None
  with assms show ?thesis by (simp add: deleteList_def)
next
  case (Some l)
  show ?thesis
  proof (cases ok)
    case False
    with Some assms show ?thesis by (simp add: deleteList_def)
  next
    case True
    let ?b = "deleteList listId ok b"
    from Some have l: "l \<in> set (lists b)" "has_id listId l" by (auto dest: find_Some_in)
    have ls: "lists ?b = filter (\<lambda>l. \<not> has_id listId l) (lists b)"
      and cs: "fst ` set (cards ?b) = fst ` set (cards b) - to_property_key ` set (cardIds l)"
      using Some True by (simp_all add: deleteList_def fold_delete_keys)
    show ?thesis
    proof (rule integrityI)
      show "set (concat (map cardIds (lists ?b))) \<subseteq> JStr ` fst ` set (cards ?b)"
      proof
        fix c assume "c \<in> set (concat (map cardIds (lists ?b)))"
        then obtain m where m: "m \<in> set (lists b)" "\<not> has_id listId m" "c \<in> set (cardIds m)"
          unfolding ls by auto
        from integrity_ids [OF assms m(1) m(3)]
        obtain k where k: "c = JStr k" "k \<in> fst ` set (cards b)"
          by blast
        have "k \<notin> to_property_key ` set (cardIds l)"
        proof
          assume "k \<in> to_property_key ` set (cardIds l)"
          then obtain d where d: "d \<in> set (cardIds l)" "k = to_property_key d" by blast
          from integrity_ids [OF assms l(1) d(1)] d(2) have "d = JStr k" by auto
          with d(1) k(1) have "c \<in> set (cardIds l)" by simp
          moreover from m(2) l(2) have "m \<noteq> l" by auto
          ultimately have "2 \<le> holders c b"
            unfolding holders_def using m(1) l(1) m(3) by (intro two_holders [of m _ l]) simp_all
          with integrity_one [OF assms, of c] show False by simp
        qed
        with k show "c \<in> JStr ` fst ` set (cards ?b)" unfolding cs by simp
      qed
    next
      fix c
      have "holders c ?b \<le> holders c b"
        unfolding holders_def ls by (rule filter_filter_le)
      with integrity_one [OF assms, of c] show "holders c ?b \<le> 1" by simp
    qed
  qed
qed

lemma createCard_integrity:
  assumes "integrity b" "holders (JStr new_id) b = 0" "new_id \<noteq> ''__proto__''"
  shows "integrity (createCard listId title cat due new_id now b)"
proof (cases "find (has_id listId) (lists b)")
  case None
  with assms show ?thesis by (simp add: createCard_def)
next
  case (Some l)
  let ?b = "createCard listId title cat due new_id now b"
  have ls: "lists ?b = update_first (has_id listId) (push new_id) (lists b)"
    and cs: "fst ` set (cards ?b) = insert new_id (fst ` set (cards b))"
    using Some assms(3) by (simp_all add: createCard_def assign_card_def AList.dom_update)
  show ?thesis
  proof (rule integrityI)
    have "set (concat (map cardIds (lists ?b)))
        \<subseteq> set (concat (map cardIds (lists b)))
            \<union> (\<Union>l \<in> set (lists b). set (cardIds (push new_id l)))"
      unfolding ls by (rule update_first_ids)
    also have "\<dots> \<subseteq> insert (JStr new_id) (set (concat (map cardIds (lists b))))"
      by (auto simp: push_def)
    also have "\<dots> \<subseteq> JStr ` fst ` set (cards ?b)"
      using assms(1) unfolding cs integrity_def referential_integrity_iff by auto
    finally show "set (concat (map cardIds (lists ?b))) \<subseteq> JStr ` fst ` set (cards ?b)" .
  next
    fix c
    show "holders c ?b \<le> 1"
    proof (cases "c = JStr new_id")
      case True
      have "holders c ?b \<le> Suc (holders c b)"
        unfolding holders_def ls by (rule update_first_count_le)
      with True assms(2) show ?thesis by simp
    next
      case False
      then have "holders c ?b = holders c b"
        unfolding holders_def ls by (intro update_first_count_same) (auto simp: push_def)
      with integrity_one [OF assms(1), of c] show ?thesis by simp
    qed
  qed
qed

lemma deleteCard_integrity:
  assumes "integrity b"
  shows "integrity (deleteCard cardId ok b)"
proof (cases "cards_get b cardId = Falsy \<or> \<not> ok")
  case True
  with assms show ?thesis by (auto simp: deleteCard_def)
next
  case False
  let ?b = "deleteCard cardId ok b"
  from False have ls: "lists ?b = map (without cardId) (lists b)"
    and cs: "fst ` set (cards ?b) = fst ` set (cards b) - {cardId}"
    by (auto simp: deleteCard_def AList.delete_keys simp flip: set_map)
  show ?thesis
  proof (rule integrityI)
    show "set (concat (map cardIds (lists ?b))) \<subseteq> JStr ` fst ` set (cards ?b)"
    proof
      fix c assume "c \<in> set (concat (map cardIds (lists ?b)))"
      then obtain m where m: "m \<in> set (lists b)" "c \<in> set (cardIds m)" "c \<noteq> JStr cardId"
        unfolding ls by (auto simp: without_def)
      from integrity_ids [OF assms m(1) m(2)] m(3) show "c \<in> JStr ` fst ` set (cards ?b)"
        unfolding cs by auto
    qed
  next
    fix c
    have "length (filter (\<lambda>l. c \<in> set (cardIds l)) (map (without cardId) ls))
        \<le> length (filter (\<lambda>l. c \<in> set (cardIds l)) ls)" for ls
      by (induction ls) (auto simp: without_def)
    then have "holders c ?b \<le> holders c b" unfolding holders_def ls .
    with integrity_one [OF assms, of c] show "holders c ?b \<le> 1" by simp
  qed
qed

lemma moveCardToList_integrity:
  assumes "integrity b" "own_or_absent b cardId"
  shows "integrity (moveCardToList cardId t b)"
proof (cases "cards_get b cardId = Falsy \<or> find (has_id t) (lists b) = None")
  case True
  with assms(1) show ?thesis by (simp add: moveCardToList_noop)
next
  case False
  let ?b = "moveCardToList cardId t b"
  let ?add = "\<lambda>l. if has_card cardId l then l else push cardId l"
  let ?ls1 = "update_first (has_card cardId) (without cardId) (lists b)"
  from False have ls: "lists ?b = update_first (has_id t) ?add ?ls1"
    and cs: "cards ?b = cards b"
    by (auto simp: moveCardToList_def)
  from False assms(2) have "map_of (cards b) cardId \<noteq> None"
    by (simp add: own_or_absent_key)
  then have key: "cardId \<in> fst ` set (cards b)"
    by (auto dest: map_of_SomeD intro: rev_image_eqI)
  show ?thesis
  proof (rule integrityI)
    have "set (concat (map cardIds (lists ?b)))
        \<subseteq> set (concat (map cardIds ?ls1)) \<union> (\<Union>l \<in> set ?ls1. set (cardIds (?add l)))"
      unfolding ls by (rule update_first_ids)
    also have "\<dots> \<subseteq> insert (JStr cardId) (set (concat (map cardIds ?ls1)))"
      by (auto simp: push_def split: if_splits)
    also have "set (concat (map cardIds ?ls1))
        \<subseteq> set (concat (map cardIds (lists b)))
            \<union> (\<Union>l \<in> set (lists b). set (cardIds (without cardId l)))"
      by (rule update_first_ids)
    also have "\<dots> \<subseteq> set (concat (map cardIds (lists b)))"
      by (auto simp: without_def)
    finally have "set (concat (map cardIds (lists ?b)))
        \<subseteq> insert (JStr cardId) (set (concat (map cardIds (lists b))))"
      by blast
    also have "\<dots> \<subseteq> JStr ` fst ` set (cards ?b)"
      using assms(1) key unfolding cs integrity_def referential_integrity_iff by auto
    finally show "set (concat (map cardIds (lists ?b))) \<subseteq> JStr ` fst ` set (cards ?b)" .
  next
    fix c
    show "holders c ?b \<le> 1"
    proof (cases "c = JStr cardId")
      case True
      have "holders c ?b \<le> Suc (length (filter (\<lambda>l. c \<in> set (cardIds l)) ?ls1))"
        unfolding holders_def ls by (rule update_first_count_le)
      also have "length (filter (\<lambda>l. c \<in> set (cardIds l)) ?ls1) = holders c b - 1"
        unfolding True holders_def by (rule without_count)
      finally show ?thesis using integrity_one [OF assms(1), of c] by simp
    next
      case False
      then have "holders c ?b = length (filter (\<lambda>l. c \<in> set (cardIds l)) ?ls1)"
        unfolding holders_def ls
        by (intro update_first_count_same) (auto simp: push_def split: if_splits)
      also from False have "\<dots> = holders c b"
        unfolding holders_def by (intro update_first_count_same) (auto simp: without_def)
      finally show ?thesis using integrity_one [OF assms(1), of c] by simp
    qed
  qed
qed

lemma run_integrity: "integrity b \<Longrightarrow> regular_calls cs b \<Longrightarrow> integrity (run cs b)"
proof (induction cs arbitrary: b)
  case Nil
  then show ?case by simp
next
  case (Cons c cs)
  from Cons.prems have "integrity (apply_call c b) \<and> regular_calls cs (apply_call c b)"
    by (cases c)
       (simp_all add: createList_integrity renameList_integrity deleteList_integrity
          createCard_integrity editCard_integrity deleteCard_integrity moveCardToList_integrity)
  with Cons.IH show ?case by simp
qed

section \<open>Export followed by import\<close>

lemma is_string_nullish: "is_string v \<Longrightarrow> nullish (Some v) d = v"
  by (cases v) simp_all

lemma import_list_export: "well_typed_list l \<Longrightarrow> import_list u (list_to_json l) = Inr l"
  by (simp add: well_typed_list_def import_list_def list_to_json_def is_string_nullish)

lemma import_lists_export:
  "list_all well_typed_list ls \<Longrightarrow> import_lists uid i (map list_to_json ls) = Inr ls"
  by (induction ls arbitrary: i) (simp_all add: import_list_export)

lemma import_card_export: "well_typed_card c \<Longrightarrow> import_card now k (card_to_json c) = c"
proof -
  assume wt: "well_typed_card c"
  then have "category (import_card now k (card_to_json c)) = category c"
    by (simp add: well_typed_card_def import_card_def card_to_json_def)
  moreover from wt have "dueDate (import_card now k (card_to_json c)) = dueDate c"
    by (cases "dueDate c") (simp_all add: well_typed_card_def import_card_def card_to_json_def)
  moreover from wt have "c_id (import_card now k (card_to_json c)) = c_id c"
    "c_title (import_card now k (card_to_json c)) = c_title c"
    "createdAt (import_card now k (card_to_json c)) = createdAt c"
    by (simp_all add: well_typed_card_def import_card_def card_to_json_def is_string_nullish)
  ultimately show ?thesis by simp
qed

lemma update_fresh_key: "k \<notin> fst ` set al \<Longrightarrow> AList.update k v al = al @ [(k, v)]"
  by (induction al) auto

lemma import_cards_export:
  "list_all (\<lambda>(k, c). well_typed_card c) cs \<Longrightarrow> distinct (map fst (out @ cs)) \<Longrightarrow>
   ''__proto__'' \<notin> fst ` set cs \<Longrightarrow>
   import_cards nowISO i (map (\<lambda>(k, c). (k, card_to_json c)) cs) (out, p) = Inr (out @ cs, p)"
proof (induction cs arbitrary: i out)
  case Nil
  then show ?case by simp
next
  case (Cons kc cs)
  obtain k c where kc: "kc = (k, c)" by (cases kc)
  from Cons.prems kc have wt: "well_typed_card c"
    and rest: "list_all (\<lambda>(k, c). well_typed_card c) cs"
    by simp_all
  from Cons.prems kc have fresh: "k \<notin> fst ` set out" by auto
  from Cons.prems kc have dist: "distinct (map fst ((out @ [(k, c)]) @ cs))" by auto
  from Cons.prems kc have plain: "k \<noteq> ''__proto__''" and plains: "''__proto__'' \<notin> fst ` set cs"
    by auto
  have "card_to_json c \<noteq> JNull" by (simp add: card_to_json_def)
  then have "import_cards nowISO i (map (\<lambda>(k, c). (k, card_to_json c)) (kc # cs)) (out, p)
      = import_cards nowISO (Suc i) (map (\<lambda>(k, c). (k, card_to_json c)) cs) (out @ [(k, c)], p)"
    using kc wt fresh plain by (simp add: import_card_export update_fresh_key assign_card_def)
  also have "\<dots> = Inr ((out @ [(k, c)]) @ cs, p)"
    using Cons.IH [OF rest dist plains] .
  finally show ?case using kc by simp
qed

lemma export_import_roundtrip:
  assumes "well_typed b" and "''__proto__'' \<notin> fst ` set (cards b)"
  shows "normalizeImportedState uid nowISO (exportBoard b) = Inr b"
proof -
  from assms have "import_cards nowISO 0 (map (\<lambda>(k, c). (k, card_to_json c)) (cards b)) ([], None)
      = Inr ([] @ cards b, None)"
    by (intro import_cards_export) (simp_all add: well_typed_def)
  moreover from assms(1) have "import_lists uid 0 (map list_to_json (lists b)) = Inr (lists b)"
    by (intro import_lists_export) (simp add: well_typed_def)
  ultimately show ?thesis
    using assms(1) by (simp add: well_typed_def normalizeImportedState_def exportBoard_def)
qed

section \<open>What import does with each list and card\<close>

lemma import_lists_cardIds:
  "import_lists uid i ls = Inr rs \<Longrightarrow>
   map cardIds rs = map (\<lambda>l. array_or_empty (property l ''cardIds'')) ls"
  by (induction ls arbitrary: i rs) (auto simp: import_list_def split: sum.splits if_splits)

lemma import_cards_other_key:
  "import_cards nowISO i es out = Inr res \<Longrightarrow> k \<notin> fst ` set es \<Longrightarrow>
   map_of (fst res) k = map_of (fst out) k"
proof (induction es arbitrary: i out)
  case Nil
  then show ?case by simp
next
  case (Cons e es)
  obtain k' c' where e: "e = (k', c')" by (cases e)
  with Cons.prems have ne: "k' \<noteq> k" and rest: "k \<notin> fst ` set es"
    and r: "import_cards nowISO (Suc i) es (assign_card k' (import_card (nowISO i) k' c') out)
              = Inr res"
    by (auto split: if_splits)
  from Cons.IH [OF r rest] ne show ?case by (simp add: assign_card_def AList.update_conv')
qed

lemma import_cards_entry:
  "import_cards nowISO i es out = Inr res \<Longrightarrow> distinct (map fst es) \<Longrightarrow> (k, c) \<in> set es \<Longrightarrow>
   k \<noteq> ''__proto__'' \<Longrightarrow> \<exists>n. map_of (fst res) k = Some (import_card n k c)"
proof (induction es arbitrary: i out)
  case Nil
  then show ?case by simp
next
  case (Cons e es)
  obtain k' c' where e: "e = (k', c')" by (cases e)
  with Cons.prems
  have r: "import_cards nowISO (Suc i) es (assign_card k' (import_card (nowISO i) k' c') out)
             = Inr res"
    and d: "distinct (map fst es)" and fresh: "k' \<notin> fst ` set es"
    by (auto split: if_splits)
  show ?case
  proof (cases "(k, c) = (k', c')")
    case True
    with import_cards_other_key [OF r fresh] Cons.prems(4) show ?thesis
      by (auto simp: assign_card_def AList.update_conv')
  next
    case False
    with Cons.prems(3) e have "(k, c) \<in> set es" by auto
    from Cons.IH [OF r d this Cons.prems(4)] show ?thesis .
  qed
qed

lemma import_card_fallback:
  "\<not> is_category (property c ''category'') \<Longrightarrow> category (import_card n k c) = JStr ''project''"
  by (cases "property c ''category''") (simp_all add: import_card_def)

lemma map_of_fold_delete:
  "map_of (fold (\<lambda>cid cs. AList.delete (to_property_key cid) cs) ids al) k
     = (if k \<in> to_property_key ` set ids then None else map_of al k)"
  by (induction ids arbitrary: al) (auto simp: AList.delete_conv')

section \<open>Referential integrity under the Mutation API\<close>

text \<open>
  The invariants are kept by every regular run: a sequence of calls of \<open>createList\<close>,
  \<open>renameList\<close>, \<open>deleteList\<close>, \<open>createCard\<close>, \<open>editCard\<close>, \<open>deleteCard\<close> and
  \<open>moveCardToList\<close>, with any answers of the user, in which the ids of new cards are
  fresh and the lookups of \<open>moveCardToList\<close> and \<open>editCard\<close> find no foreign value.
\<close>

lemma regular_runs_keep_integrity:
  assumes "referential_integrity b" and "at_most_one_list b" and "regular_calls calls b"
  shows "referential_integrity (run calls b) \<and> at_most_one_list (run calls b)"
proof -
  from assms(1,2) have "integrity b" by (simp add: integrity_def)
  then have "integrity (run calls b)" using assms(3) by (rule run_integrity)
  then show ?thesis by (simp add: integrity_def)
qed

lemma regular_runs_keep_integrity_example:
  "referential_integrity example_board \<and> at_most_one_list example_board
   \<and> regular_calls example_calls example_board
   \<and> referential_integrity (run example_calls example_board)
   \<and> at_most_one_list (run example_calls example_board)"
proof -
  have r: "referential_integrity example_board"
    by (simp add: referential_integrity_def example_board_def list_todo_def list_done_def)
  have a: "at_most_one_list example_board"
    by (simp add: at_most_one_list_def holders_def example_board_def list_todo_def list_done_def)
  have f: "regular_calls example_calls example_board"
    by (simp add: example_calls_def holders_def example_board_def list_todo_def list_done_def
        createCard_def assign_card_def has_id_def push_def own_or_absent_def cards_get_def)
  from regular_runs_keep_integrity [OF r a f] r a f show ?thesis by simp
qed

text \<open>
  C1. The board \<open>shadow_board\<close> is what import makes of \<open>shadow_doc\<close>; every id in
  its lists is a key of \<open>cards\<close> and no id is in two lists. Its card carries the id
  \<open>toString\<close>, which the renderer hands to \<open>moveCardToList\<close> when the card is dropped
  on the list \<open>L2\<close>. The guard \<open>!state.cards[cardId]\<close> finds the inherited function
  and lets the call pass: no list holds \<open>toString\<close>, so nothing is removed, and
  \<open>toString\<close> is appended to \<open>L2\<close>. It is no key of \<open>cards\<close>: referential integrity
  is lost. The same happens for a direct call with any inherited name, here
  \<open>constructor\<close> on \<open>example_board\<close>.
\<close>

theorem move_of_inherited_name_breaks_integrity:
  "reader_onload uid nowISO (Inr shadow_doc) state = (shadow_board, Imported)
   \<and> referential_integrity shadow_board \<and> at_most_one_list shadow_board
   \<and> lists (moveCardToList ''toString'' ''L2'' shadow_board)
       = [\<lparr> l_id = JStr ''L1'', l_title = JStr ''Todo'', cardIds = [JStr ''k1''] \<rparr>,
          \<lparr> l_id = JStr ''L2'', l_title = JStr ''Done'', cardIds = [JStr ''toString''] \<rparr>]
   \<and> cards (moveCardToList ''toString'' ''L2'' shadow_board) = cards shadow_board
   \<and> \<not> referential_integrity (moveCardToList ''toString'' ''L2'' shadow_board)
   \<and> referential_integrity example_board \<and> at_most_one_list example_board
   \<and> map cardIds (lists (moveCardToList ''constructor'' ''L2'' example_board))
       = [[JStr ''c1'', JStr ''c2''], [JStr ''c3'', JStr ''constructor'']]
   \<and> \<not> referential_integrity (moveCardToList ''constructor'' ''L2'' example_board)"
proof -
  have i: "reader_onload uid nowISO (Inr shadow_doc) state = (shadow_board, Imported)"
    by (simp add: reader_onload_def normalizeImportedState_def shadow_doc_def shadow_board_def
        import_list_def import_card_def assign_card_def)
  have r: "referential_integrity shadow_board"
    by (simp add: referential_integrity_def shadow_board_def)
  have a: "at_most_one_list shadow_board"
    by (simp add: at_most_one_list_def holders_def shadow_board_def)
  have g: "cards_get shadow_board ''toString'' = Foreign"
    by (simp add: cards_get_def shadow_board_def OBJECT_PROTOTYPE_def)
  have m: "moveCardToList ''toString'' ''L2'' shadow_board
      = shadow_board\<lparr>lists :=
          [\<lparr> l_id = JStr ''L1'', l_title = JStr ''Todo'', cardIds = [JStr ''k1''] \<rparr>,
           \<lparr> l_id = JStr ''L2'', l_title = JStr ''Done'', cardIds = [JStr ''toString''] \<rparr>]\<rparr>"
    using g by (simp add: moveCardToList_def shadow_board_def has_id_def has_card_def
        without_def push_def)
  have n: "\<not> referential_integrity (moveCardToList ''toString'' ''L2'' shadow_board)"
    unfolding m by (simp add: referential_integrity_def shadow_board_def)
  have r': "referential_integrity example_board"
    by (simp add: referential_integrity_def example_board_def list_todo_def list_done_def)
  have a': "at_most_one_list example_board"
    by (simp add: at_most_one_list_def holders_def example_board_def list_todo_def list_done_def)
  have g': "cards_get example_board ''constructor'' = Foreign"
    by (simp add: cards_get_def example_board_def OBJECT_PROTOTYPE_def)
  have m': "moveCardToList ''constructor'' ''L2'' example_board
      = example_board\<lparr>lists := [list_todo, push ''constructor'' list_done]\<rparr>"
    using g' by (simp add: moveCardToList_def example_board_def has_id_def has_card_def
        list_todo_def list_done_def)
  have c': "map cardIds (lists (moveCardToList ''constructor'' ''L2'' example_board))
       = [[JStr ''c1'', JStr ''c2''], [JStr ''c3'', JStr ''constructor'']]"
    unfolding m' by (simp add: push_def list_todo_def list_done_def)
  have n': "\<not> referential_integrity (moveCardToList ''constructor'' ''L2'' example_board)"
    unfolding m' by (simp add: referential_integrity_def example_board_def push_def
        list_todo_def list_done_def)
  from i r a n r' a' c' n' show ?thesis unfolding m by simp
qed

section \<open>Export and import round trip\<close>

text \<open>
  For every well-typed board without a card keyed \<open>__proto__\<close>, normalizing the
  exported document gives the board back (\<open>export_import_roundtrip\<close> above), and the
  import handler makes it the board in \<open>state\<close>.
\<close>

lemma export_import_roundtrip_handler:
  assumes "well_typed b" and "''__proto__'' \<notin> fst ` set (cards b)"
  shows "reader_onload uid nowISO (Inr (exportBoard b)) state = (b, Imported)"
  using export_import_roundtrip [OF assms] by (simp add: reader_onload_def)

lemma export_import_roundtrip_example:
  "well_typed example_board \<and> ''__proto__'' \<notin> fst ` set (cards example_board)
   \<and> reader_onload (\<lambda>i. ''list_0'') (\<lambda>i. ''now'') (Inr (exportBoard example_board)) ghost_board
       = (example_board, Imported)"
proof -
  have w: "well_typed example_board"
    by (simp add: well_typed_def well_typed_list_def well_typed_card_def example_board_def
        list_todo_def list_done_def example_card_def CATEGORY_OPTIONS_def)
  have p: "''__proto__'' \<notin> fst ` set (cards example_board)"
    by (simp add: example_board_def)
  from export_import_roundtrip_handler [OF w p] w p show ?thesis by simp
qed

text \<open>
  C2. The board \<open>proto_board\<close> is well typed and every id in its list is a key of
  \<open>cards\<close>; one of its cards has the id \<open>__proto__\<close>. The exported document holds both
  cards. On import \<open>out.cards["__proto__"] = {...}\<close> replaces the prototype of
  \<open>out.cards\<close> and stores no entry: the imported board has one card, and its list names
  a card that is gone.
\<close>

theorem roundtrip_loses_card_keyed_proto:
  "well_typed proto_board \<and> referential_integrity proto_board
   \<and> reader_onload uid nowISO (Inr (exportBoard proto_board)) state
       = (\<lparr> version = 2,
            lists = [\<lparr> l_id = JStr ''L1'', l_title = JStr ''Todo'',
                       cardIds = [JStr ''c1'', JStr ''__proto__''] \<rparr>],
            cards = [(''c1'', example_card ''c1'' ''lab'')],
            cards_proto = Some (example_card ''__proto__'' ''mod'') \<rparr>, Imported)
   \<and> map fst (cards proto_board) = [''c1'', ''__proto__'']"
proof -
  have w: "well_typed proto_board"
    by (simp add: well_typed_def well_typed_list_def well_typed_card_def proto_board_def
        example_card_def CATEGORY_OPTIONS_def)
  have r: "referential_integrity proto_board"
    by (simp add: referential_integrity_def proto_board_def)
  have i: "reader_onload uid nowISO (Inr (exportBoard proto_board)) state
       = (\<lparr> version = 2,
            lists = [\<lparr> l_id = JStr ''L1'', l_title = JStr ''Todo'',
                       cardIds = [JStr ''c1'', JStr ''__proto__''] \<rparr>],
            cards = [(''c1'', example_card ''c1'' ''lab'')],
            cards_proto = Some (example_card ''__proto__'' ''mod'') \<rparr>, Imported)"
    by (simp add: reader_onload_def normalizeImportedState_def exportBoard_def proto_board_def
        list_to_json_def card_to_json_def import_list_def import_card_def assign_card_def
        example_card_def CATEGORY_OPTIONS_def)
  have k: "map fst (cards proto_board) = [''c1'', ''__proto__'']"
    by (simp add: proto_board_def)
  from w r i k show ?thesis by simp
qed

section \<open>Import of a document that is not an object\<close>

text \<open>
  C3. The import of the text \<open>[]\<close>: \<open>JSON.parse\<close> returns the empty array, whose
  \<open>typeof\<close> is \<open>object\<close>, so \<open>normalizeImportedState\<close> does not throw and the board is
  replaced by the empty board. A text that does not parse, and the values \<open>null\<close>,
  booleans, numbers and strings, leave the board as it was and report the failure.
\<close>

theorem import_of_array_replaces_board:
  "reader_onload uid nowISO (Inr (JArr [])) state
     = (\<lparr> version = 2, lists = [], cards = [], cards_proto = None \<rparr>, Imported)
   \<and> reader_onload uid nowISO (Inl e) state = (state, ImportFailed)
   \<and> reader_onload uid nowISO (Inr JNull) state = (state, ImportFailed)
   \<and> reader_onload uid nowISO (Inr (JBool t)) state = (state, ImportFailed)
   \<and> reader_onload uid nowISO (Inr (JNum n)) state = (state, ImportFailed)
   \<and> reader_onload uid nowISO (Inr (JStr s)) state = (state, ImportFailed)"
  by (simp add: reader_onload_def normalizeImportedState_def)

section \<open>Moving a card onto a list that holds it\<close>

text \<open>
  C4, as the code has it. Let the target list exist and hold the card id, and let the
  card id be a key of \<open>cards\<close> or find no truthy value on the prototype chain of
  \<open>cards\<close>.
  After \<open>moveCardToList\<close> the target list is unchanged when the card id is no key of
  \<open>cards\<close> or some earlier list is the first to hold the card; otherwise every
  occurrence of the card is removed from the target's \<open>cardIds\<close> and the card is
  appended at its end. That is the old sequence exactly when the card was its last
  element and occurred once. When at most one list holds the card and the card id is a
  key of \<open>cards\<close>, the call leaves the card as the last element of the target, once;
  when at most one list holds the card, a second call with the same card and target
  changes nothing.
\<close>

theorem move_onto_holding_list:
  assumes "find (has_id t) (lists b) = Some l" and "has_card c l" and "own_or_absent b c"
  shows "find (has_id t) (lists (moveCardToList c t b))
           = Some (if map_of (cards b) c \<noteq> None \<and> find (has_card c) (lists b) = Some l
                   then push c (without c l) else l)
         \<and> push c (without c l) = l\<lparr>cardIds := filter (\<lambda>i. i \<noteq> JStr c) (cardIds l) @ [JStr c]\<rparr>
         \<and> (push c (without c l) = l) = (\<exists>xs. cardIds l = xs @ [JStr c] \<and> JStr c \<notin> set xs)
         \<and> (holders (JStr c) b \<le> 1 \<and> map_of (cards b) c \<noteq> None \<longrightarrow>
              find (has_id t) (lists (moveCardToList c t b)) = Some (push c (without c l)))
         \<and> (holders (JStr c) b \<le> 1 \<longrightarrow>
              moveCardToList c t (moveCardToList c t b) = moveCardToList c t b)"
proof -
  have main: "find (has_id t) (lists (moveCardToList c t b))
           = Some (if map_of (cards b) c \<noteq> None \<and> find (has_card c) (lists b) = Some l
                   then push c (without c l) else l)"
  proof (cases "map_of (cards b) c")
    case None
    with assms(3) have "cards_get b c = Falsy" by (simp add: own_or_absent_Falsy)
    with assms(1) None show ?thesis by (simp add: moveCardToList_noop)
  next
    case (Some y)
    then have "cards_get b c \<noteq> Falsy" by (simp add: cards_get_own)
    with assms(1) have "lists (moveCardToList c t b)
        = update_first (has_id t) (\<lambda>l. if has_card c l then l else push c l)
            (update_first (has_card c) (without c) (lists b))"
      by (simp add: moveCardToList_lists)
    with Some target_after_move [OF assms(1,2)] show ?thesis by simp
  qed
  have shape: "push c (without c l)
      = l\<lparr>cardIds := filter (\<lambda>i. i \<noteq> JStr c) (cardIds l) @ [JStr c]\<rparr>"
    by (simp add: push_def without_def)
  have same: "(push c (without c l) = l) = (\<exists>xs. cardIds l = xs @ [JStr c] \<and> JStr c \<notin> set xs)"
  proof
    assume "push c (without c l) = l"
    then have "cardIds l = filter (\<lambda>i. i \<noteq> JStr c) (cardIds l) @ [JStr c]"
      unfolding shape by (metis board_list.select_convs(3) board_list.surjective
          board_list.update_convs(3))
    moreover have "JStr c \<notin> set (filter (\<lambda>i. i \<noteq> JStr c) (cardIds l))" by simp
    ultimately show "\<exists>xs. cardIds l = xs @ [JStr c] \<and> JStr c \<notin> set xs" by blast
  next
    assume "\<exists>xs. cardIds l = xs @ [JStr c] \<and> JStr c \<notin> set xs"
    then show "push c (without c l) = l" by (auto intro: push_without_last)
  qed
  have only: "find (has_id t) (lists (moveCardToList c t b)) = Some (push c (without c l))"
    if "holders (JStr c) b \<le> 1" and "map_of (cards b) c \<noteq> None"
  proof -
    from assms(1) have "l \<in> set (lists b)" by (auto dest: find_Some_in)
    then have "find (has_card c) (lists b) = Some l"
      using assms(2) that(1) by (rule only_holder_is_first)
    with main that(2) show ?thesis by simp
  qed
  from main shape same only show ?thesis by (simp add: move_twice)
qed

theorem move_onto_holding_list_witness:
  "find (has_id ''L1'') (lists example_board) = Some list_todo \<and> has_card ''c1'' list_todo
   \<and> own_or_absent example_board ''c1''
   \<and> find (has_id ''L1'') (lists (moveCardToList ''c1'' ''L1'' example_board))
       = Some (push ''c1'' (without ''c1'' list_todo))
   \<and> cardIds (push ''c1'' (without ''c1'' list_todo)) = [JStr ''c2'', JStr ''c1'']
   \<and> holders (JStr ''c1'') example_board \<le> 1
   \<and> moveCardToList ''c1'' ''L1'' (moveCardToList ''c1'' ''L1'' example_board)
       = moveCardToList ''c1'' ''L1'' example_board"
proof -
  have f: "find (has_id ''L1'') (lists example_board) = Some list_todo"
    by (simp add: example_board_def has_id_def list_todo_def)
  have h: "has_card ''c1'' list_todo"
    by (simp add: has_card_def list_todo_def)
  have p: "own_or_absent example_board ''c1''"
    by (simp add: own_or_absent_def cards_get_def example_board_def)
  have o: "holders (JStr ''c1'') example_board \<le> 1"
    by (simp add: holders_def example_board_def list_todo_def list_done_def)
  have c: "map_of (cards example_board) ''c1'' \<noteq> None"
    by (simp add: example_board_def)
  have g: "find (has_card ''c1'') (lists example_board) = Some list_todo"
    by (simp add: example_board_def has_card_def list_todo_def)
  have s: "cardIds (push ''c1'' (without ''c1'' list_todo)) = [JStr ''c2'', JStr ''c1'']"
    by (simp add: push_def without_def list_todo_def)
  from move_onto_holding_list [OF f h p] f h p o c g s show ?thesis by simp
qed

theorem move_repositions_counterexample:
  "find (has_id ''L1'') (lists example_board)
     = Some \<lparr> l_id = JStr ''L1'', l_title = JStr ''Todo'', cardIds = [JStr ''c1'', JStr ''c2''] \<rparr>
   \<and> find (has_id ''L1'') (lists (moveCardToList ''c1'' ''L1'' example_board))
     = Some \<lparr> l_id = JStr ''L1'', l_title = JStr ''Todo'', cardIds = [JStr ''c2'', JStr ''c1''] \<rparr>"
  by (simp add: moveCardToList_def cards_get_def example_board_def list_todo_def list_done_def
      has_id_def has_card_def without_def push_def)

section \<open>Cascade delete\<close>

text \<open>
  C5. Let list \<open>L\<close> exist with \<open>cardIds\<close> \<open>cs\<close> (for instance \<open>c1\<close>, \<open>c2\<close>). A
  confirmed \<open>deleteList(L)\<close> leaves exactly the lists whose id is not \<open>L\<close>, each as it
  was and in the old order, so no list with id \<open>L\<close> remains; no card of \<open>cs\<close> is a key
  of \<open>cards\<close> any more; every other card entry and the version stay.
\<close>

theorem deleteList_cascades:
  assumes "find (has_id listId) (lists b) = Some l" and "cardIds l = map JStr cs"
  shows "lists (deleteList listId True b) = filter (\<lambda>m. \<not> has_id listId m) (lists b)
    \<and> find (has_id listId) (lists (deleteList listId True b)) = None
    \<and> (\<forall>k \<in> set cs. map_of (cards (deleteList listId True b)) k = None)
    \<and> (\<forall>k. k \<notin> set cs \<longrightarrow> map_of (cards (deleteList listId True b)) k = map_of (cards b) k)
    \<and> version (deleteList listId True b) = version b"
proof -
  have keys: "to_property_key ` set (cardIds l) = set cs"
    unfolding assms(2) by (simp add: image_image)
  from assms(1)
  have ls: "lists (deleteList listId True b) = filter (\<lambda>m. \<not> has_id listId m) (lists b)"
    by (simp add: deleteList_def)
  have gone: "find (has_id listId) (filter (\<lambda>m. \<not> has_id listId m) (lists b)) = None"
    by (simp add: find_None_iff)
  from assms(1) have cs: "map_of (cards (deleteList listId True b)) k
      = (if k \<in> set cs then None else map_of (cards b) k)" for k
    by (simp add: deleteList_def map_of_fold_delete keys)
  from assms(1) have v: "version (deleteList listId True b) = version b"
    by (simp add: deleteList_def)
  from ls gone cs v show ?thesis by simp
qed

theorem deleteList_cascades_witness:
  "find (has_id ''L1'') (lists example_board) = Some list_todo
   \<and> cardIds list_todo = map JStr [''c1'', ''c2'']
   \<and> lists (deleteList ''L1'' True example_board) = [list_done]
   \<and> map_of (cards (deleteList ''L1'' True example_board)) ''c1'' = None
   \<and> map_of (cards (deleteList ''L1'' True example_board)) ''c2'' = None
   \<and> map_of (cards (deleteList ''L1'' True example_board)) ''c3''
       = Some (example_card ''c3'' ''project'')"
proof -
  have f: "find (has_id ''L1'') (lists example_board) = Some list_todo"
    by (simp add: example_board_def has_id_def list_todo_def)
  have c: "cardIds list_todo = map JStr [''c1'', ''c2'']"
    by (simp add: list_todo_def)
  have r: "filter (\<lambda>m. \<not> has_id ''L1'' m) (lists example_board) = [list_done]"
    by (simp add: example_board_def has_id_def list_todo_def list_done_def)
  have k: "map_of (cards example_board) ''c3'' = Some (example_card ''c3'' ''project'')"
    by (simp add: example_board_def)
  from deleteList_cascades [OF f c] f c r k show ?thesis by simp
qed

section \<open>Migration of the legacy data at start-up\<close>

text \<open>
  C6. For the legacy data \<open>{lists:[{id:"L1"}], cards:{"C1":{title:"x"}}}\<close> the function
  builds the board that the specification expects: one list \<open>L1\<close> titled \<open>Untitled\<close> with empty
  \<open>cardIds\<close>, one card \<open>C1\<close> titled \<open>x\<close> with category \<open>project\<close> and no due date. It
  then assigns \<open>state\<close> while the declaration of \<open>state\<close> is still being evaluated, so
  the start-up ends in a ReferenceError and no board is produced.
\<close>

theorem migration_of_example_fails_at_startup:
  "migrated uid nowISO legacy_example
     = Inr \<lparr> version = 2,
             lists = [\<lparr> l_id = JStr ''L1'', l_title = JStr ''Untitled'', cardIds = [] \<rparr>],
             cards = [(''C1'', \<lparr> c_id = JStr ''C1'', c_title = JStr ''x'',
                                createdAt = JStr (nowISO 0), category = JStr ''project'',
                                dueDate = JNull \<rparr>)],
             cards_proto = None \<rparr>
   \<and> initial_state uid nowISO None (Some (Inr legacy_example)) starter = Inl ReferenceError"
  by (simp add: migrated_def legacy_example_def import_list_def migrate_card_def assign_card_def
      initial_state_def migrateFromOldState_def loadOldState_def plausible_def)

text \<open>
  C7. Legacy data with the fields \<open>lists\<close> and \<open>cards\<close> whose \<open>lists\<close> is a number or
  a string passes the plausibility test and then throws a TypeError at
  \<open>old.lists.map\<close>; legacy data of the expected shape throws the ReferenceError of the
  assignment to \<open>state\<close>. Both leave the initialiser of \<open>state\<close> uncaught. The function
  returns \<open>null\<close> exactly when the plausibility test fails.
\<close>

theorem migration_errors_escape_startup:
  "initial_state uid nowISO None
       (Some (Inr (JObj [(''lists'', JNum 5), (''cards'', JObj [])]))) starter = Inl TypeError
   \<and> initial_state uid nowISO None
       (Some (Inr (JObj [(''lists'', JStr ''ab''), (''cards'', JObj [])]))) starter = Inl TypeError
   \<and> initial_state uid nowISO None
       (Some (Inr (JObj [(''lists'', JArr []), (''cards'', JObj [])]))) starter
       = Inl ReferenceError
   \<and> (migrateFromOldState uid nowISO initialised old = Inr None) = (\<not> plausible old)"
  by (auto simp add: migrated_def initial_state_def migrateFromOldState_def loadOldState_def
      plausible_def split: sum.splits option.splits json.splits)

section \<open>Category fallback\<close>

text \<open>
  C8, as the code has it. Import, for a document whose \<open>cards\<close> is an object: a card
  entry whose \<open>category\<close> is not one of the five keys (an unrecognized string such as
  \<open>urgent\<close>, a value that is no string, or none) and whose key is not \<open>__proto__\<close> is
  stored with category \<open>project\<close>. Edit of an existing card: when the answer to the
  category prompt, after \<open>trim\<close> and \<open>toLowerCase\<close>, is not one of the five keys, the
  card keeps its category; when it is one of them and the title answer is accepted, it
  becomes the card's category.
\<close>

theorem category_fallback:
  "(normalizeImportedState uid nowISO parsed = Inr b
      \<and> property parsed ''cards'' = Some (JObj kvs) \<and> distinct (map fst kvs)
      \<and> (k, c) \<in> set kvs \<and> \<not> is_category (property c ''category'') \<and> k \<noteq> ''__proto__''
    \<longrightarrow> map_option category (map_of (cards b) k) = Some (JStr ''project''))
   \<and> (map_of (cards st) cardId = Some old
      \<and> toLowerCase (trim (case catPrompt of None \<Rightarrow> [] | Some s \<Rightarrow> s)) \<notin> set CATEGORY_OPTIONS
    \<longrightarrow> map_option category (map_of (cards (editCard cardId nextTitle catPrompt duePrompt st)) cardId)
          = Some (category old))
   \<and> (map_of (cards st) cardId = Some old \<and> trim t \<noteq> []
      \<and> toLowerCase (trim (case catPrompt of None \<Rightarrow> [] | Some s \<Rightarrow> s)) \<in> set CATEGORY_OPTIONS
    \<longrightarrow> map_option category (map_of (cards (editCard cardId (Some t) catPrompt duePrompt st)) cardId)
          = Some (JStr (toLowerCase (trim (case catPrompt of None \<Rightarrow> [] | Some s \<Rightarrow> s)))))"
proof (intro conjI impI)
  assume a: "normalizeImportedState uid nowISO parsed = Inr b
      \<and> property parsed ''cards'' = Some (JObj kvs) \<and> distinct (map fst kvs)
      \<and> (k, c) \<in> set kvs \<and> \<not> is_category (property c ''category'') \<and> k \<noteq> ''__proto__''"
  then obtain res where "import_cards nowISO 0 kvs ([], None) = Inr res" "cards b = fst res"
    by (auto simp: normalizeImportedState_def Let_def split: if_splits sum.splits)
  with a obtain n where "map_of (cards b) k = Some (import_card n k c)"
    by (metis import_cards_entry)
  with a show "map_option category (map_of (cards b) k) = Some (JStr ''project'')"
    by (simp add: import_card_fallback)
next
  assume "map_of (cards st) cardId = Some old
      \<and> toLowerCase (trim (case catPrompt of None \<Rightarrow> [] | Some s \<Rightarrow> s)) \<notin> set CATEGORY_OPTIONS"
  then show "map_option category
               (map_of (cards (editCard cardId nextTitle catPrompt duePrompt st)) cardId)
             = Some (category old)"
    by (simp add: editCard_def cards_get_own edited_def Let_def AList.update_conv'
        split: option.splits)
next
  assume "map_of (cards st) cardId = Some old \<and> trim t \<noteq> []
      \<and> toLowerCase (trim (case catPrompt of None \<Rightarrow> [] | Some s \<Rightarrow> s)) \<in> set CATEGORY_OPTIONS"
  then show "map_option category
               (map_of (cards (editCard cardId (Some t) catPrompt duePrompt st)) cardId)
             = Some (JStr (toLowerCase (trim (case catPrompt of None \<Rightarrow> [] | Some s \<Rightarrow> s))))"
    by (simp add: editCard_def cards_get_own edited_def Let_def AList.update_conv')
qed

theorem category_fallback_witness:
  "normalizeImportedState (\<lambda>i. ''list_0'') (\<lambda>i. ''now'') urgent_doc
     = Inr \<lparr> version = 2, lists = [],
             cards = [(''C1'', \<lparr> c_id = JStr ''C1'', c_title = JStr ''x'', createdAt = JStr ''now'',
                                category = JStr ''project'', dueDate = JNull \<rparr>)],
             cards_proto = None \<rparr>
   \<and> map_of (cards example_board) ''c1'' = Some (example_card ''c1'' ''lab'')
   \<and> toLowerCase (trim '' Urgent '') \<notin> set CATEGORY_OPTIONS
   \<and> map_option category
        (map_of (cards (editCard ''c1'' (Some ''Lab 3'') (Some '' Urgent '') None example_board))
           ''c1'')
       = Some (JStr ''lab'')
   \<and> toLowerCase (trim '' MOD '') \<in> set CATEGORY_OPTIONS
   \<and> map_option category
        (map_of (cards (editCard ''c1'' (Some ''Lab 3'') (Some '' MOD '') None example_board))
           ''c1'')
       = Some (JStr ''mod'')"
proof -
  let ?b = "\<lparr> version = 2, lists = [],
             cards = [(''C1'', \<lparr> c_id = JStr ''C1'', c_title = JStr ''x'', createdAt = JStr ''now'',
                                category = JStr ''project'', dueDate = JNull \<rparr>)],
             cards_proto = None \<rparr>"
  let ?c = "JObj [(''title'', JStr ''x''), (''category'', JStr ''urgent'')]"
  have n: "normalizeImportedState (\<lambda>i. ''list_0'') (\<lambda>i. ''now'') urgent_doc = Inr ?b"
    by (simp add: normalizeImportedState_def urgent_doc_def import_card_def assign_card_def
        CATEGORY_OPTIONS_def)
  have p: "property urgent_doc ''cards'' = Some (JObj [(''C1'', ?c)])"
    by (simp add: urgent_doc_def)
  have u: "\<not> is_category (property ?c ''category'')"
    by (simp add: CATEGORY_OPTIONS_def)
  have m: "map_of (cards example_board) ''c1'' = Some (example_card ''c1'' ''lab'')"
    by (simp add: example_board_def)
  have t: "toLowerCase (trim '' Urgent '') \<notin> set CATEGORY_OPTIONS"
    by (simp add: toLowerCase_def is_capital_def trim_def is_space_def CATEGORY_OPTIONS_def)
  have v: "toLowerCase (trim '' MOD '') = ''mod''"
    by code_simp
  have w: "''mod'' \<in> set CATEGORY_OPTIONS"
    by (simp add: CATEGORY_OPTIONS_def)
  have l: "trim ''Lab 3'' \<noteq> []"
    by (simp add: trim_def is_space_def)
  have e: "category (example_card ''c1'' ''lab'') = JStr ''lab''"
    by (simp add: example_card_def)
  from category_fallback [of "\<lambda>i. ''list_0''" "\<lambda>i. ''now''" urgent_doc ?b "[(''C1'', ?c)]" "''C1''" ?c
      example_board "''c1''" "example_card ''c1'' ''lab''" "Some '' Urgent ''" "Some ''Lab 3''" None
      "''Lab 3''"]
    category_fallback [of "\<lambda>i. ''list_0''" "\<lambda>i. ''now''" urgent_doc ?b "[(''C1'', ?c)]" "''C1''" ?c
      example_board "''c1''" "example_card ''c1'' ''lab''" "Some '' MOD ''" "Some ''Lab 3''" None
      "''Lab 3''"]
    n p u m t v w l e
  show ?thesis by simp
qed

theorem edit_with_capitals_counterexample:
  "''LAB'' \<notin> set CATEGORY_OPTIONS
   \<and> map_option category (map_of (cards example_board) ''c2'') = Some (JStr ''mod'')
   \<and> map_option category
        (map_of (cards (editCard ''c2'' (Some ''Draft'') (Some ''LAB'') None example_board)) ''c2'')
       = Some (JStr ''lab'')"
proof -
  have c: "toLowerCase (trim ''LAB'') = ''lab''" by code_simp
  have t: "trim ''Draft'' = ''Draft''" by code_simp
  have d: "trim [] = []" by (simp add: trim_def)
  have m: "map_of (cards example_board) ''c2'' = Some (example_card ''c2'' ''mod'')"
    by (simp add: example_board_def)
  have e: "edited (Some ''Draft'') (Some ''LAB'') None (example_card ''c2'' ''mod'')
      = Some ((example_card ''c2'' ''mod'')
          \<lparr>c_title := JStr ''Draft'', category := JStr ''lab'', dueDate := JNull\<rparr>)"
    by (simp add: edited_def c t d CATEGORY_OPTIONS_def)
  have "cards (editCard ''c2'' (Some ''Draft'') (Some ''LAB'') None example_board)
      = AList.update ''c2''
          ((example_card ''c2'' ''mod'')
             \<lparr>c_title := JStr ''Draft'', category := JStr ''lab'', dueDate := JNull\<rparr>)
          (cards example_board)"
    by (simp add: editCard_def cards_get_own [OF m] e)
  then have "map_option category
        (map_of (cards (editCard ''c2'' (Some ''Draft'') (Some ''LAB'') None example_board)) ''c2'')
       = Some (JStr ''lab'')"
    by (simp add: AList.update_conv')
  moreover have "''LAB'' \<notin> set CATEGORY_OPTIONS" by (simp add: CATEGORY_OPTIONS_def)
  moreover have "map_option category (map_of (cards example_board) ''c2'') = Some (JStr ''mod'')"
    by (simp add: m example_card_def)
  ultimately show ?thesis by simp
qed

section \<open>What moveCardToList leaves alone\<close>

text \<open>
  C9. \<open>moveCardToList\<close> never changes \<open>cards\<close>, the version, or the id, the title or
  the position of any list. A list whose \<open>cardIds\<close> changes is the first list that held
  the card or the first list with the target id. When no list has the target id the
  board is unchanged.
\<close>

theorem moveCardToList_frame:
  "cards (moveCardToList c t b) = cards b
   \<and> version (moveCardToList c t b) = version b
   \<and> map l_id (lists (moveCardToList c t b)) = map l_id (lists b)
   \<and> map l_title (lists (moveCardToList c t b)) = map l_title (lists b)
   \<and> (\<forall>i < length (lists b).
        cardIds (lists (moveCardToList c t b) ! i) \<noteq> cardIds (lists b ! i) \<longrightarrow>
        first_at (has_card c) (lists b) i \<or> first_at (has_id t) (lists b) i)
   \<and> (find (has_id t) (lists b) = None \<longrightarrow> moveCardToList c t b = b)"
proof -
  let ?W = "update_first (has_card c) (without c) (lists b)"
  let ?A = "update_first (has_id t) (\<lambda>l. if has_card c l then l else push c l) ?W"
  have ids: "map l_id ?W = map l_id (lists b)" by (rule update_first_map) (rule without_l_id)
  have frame: "first_at (has_card c) (lists b) i \<or> first_at (has_id t) (lists b) i"
    if i: "i < length (lists b)" and ch: "cardIds (?A ! i) \<noteq> cardIds (lists b ! i)" for i
  proof (cases "?W ! i = lists b ! i")
    case True
    with ch have "?A ! i \<noteq> ?W ! i" by auto
    with i have "first_at (has_id t) ?W i"
      by (intro update_first_changes) (simp_all add: update_first_length)
    then show ?thesis using first_at_has_id [OF ids] by simp
  next
    case False
    with i show ?thesis by (auto dest: update_first_changes)
  qed
  have noop: "find (has_id t) (lists b) = None \<longrightarrow> moveCardToList c t b = b"
    by (simp add: moveCardToList_noop)
  show ?thesis
  proof (cases "cards_get b c = Falsy \<or> find (has_id t) (lists b) = None")
    case True
    then have "moveCardToList c t b = b" by (rule moveCardToList_noop)
    then show ?thesis by simp
  next
    case False
    then have "moveCardToList c t b = b\<lparr>lists := ?A\<rparr>"
      by (intro moveCardToList_lists) simp_all
    then have ls: "lists (moveCardToList c t b) = ?A"
      and rest: "cards (moveCardToList c t b) = cards b"
      "version (moveCardToList c t b) = version b"
      by simp_all
    have "map l_id ?A = map l_id ?W" by (rule update_first_map) (rule add_l_id)
    with ids have a: "map l_id (lists (moveCardToList c t b)) = map l_id (lists b)"
      unfolding ls by simp
    have "map l_title ?A = map l_title ?W" by (rule update_first_map) (rule add_l_title)
    moreover have "map l_title ?W = map l_title (lists b)"
      by (rule update_first_map) (rule without_l_title)
    ultimately have b: "map l_title (lists (moveCardToList c t b)) = map l_title (lists b)"
      unfolding ls by simp
    from frame have c: "\<forall>i < length (lists b).
        cardIds (lists (moveCardToList c t b) ! i) \<noteq> cardIds (lists b ! i) \<longrightarrow>
        first_at (has_card c) (lists b) i \<or> first_at (has_id t) (lists b) i"
      unfolding ls by blast
    from rest a b c noop show ?thesis by blast
  qed
qed

theorem moveCardToList_frame_witness:
  "cards (moveCardToList ''c1'' ''L2'' example_board) = cards example_board
   \<and> map l_id (lists (moveCardToList ''c1'' ''L2'' example_board)) = [JStr ''L1'', JStr ''L2'']
   \<and> map cardIds (lists (moveCardToList ''c1'' ''L2'' example_board))
       = [[JStr ''c2''], [JStr ''c3'', JStr ''c1'']]
   \<and> first_at (has_card ''c1'') (lists example_board) 0
   \<and> first_at (has_id ''L2'') (lists example_board) 1
   \<and> find (has_id ''L9'') (lists example_board) = None
   \<and> moveCardToList ''c1'' ''L9'' example_board = example_board"
proof -
  have m: "map cardIds (lists (moveCardToList ''c1'' ''L2'' example_board))
       = [[JStr ''c2''], [JStr ''c3'', JStr ''c1'']]"
    by (simp add: moveCardToList_def cards_get_def example_board_def list_todo_def list_done_def
        has_id_def has_card_def without_def push_def)
  have i: "map l_id (lists example_board) = [JStr ''L1'', JStr ''L2'']"
    by (simp add: example_board_def list_todo_def list_done_def)
  have f0: "first_at (has_card ''c1'') (lists example_board) 0"
    by (simp add: first_at_def example_board_def has_card_def list_todo_def)
  have f1: "first_at (has_id ''L2'') (lists example_board) 1"
    by (simp add: first_at_def example_board_def has_id_def list_todo_def list_done_def)
  have n: "find (has_id ''L9'') (lists example_board) = None"
    by (simp add: example_board_def has_id_def list_todo_def list_done_def)
  from moveCardToList_frame [of "''c1''" "''L2''" example_board]
    moveCardToList_frame [of "''c1''" "''L9''" example_board] m i f0 f1 n
  show ?thesis by simp
qed

section \<open>Import does not check the card ids of a list\<close>

text \<open>
  C10. Import copies the \<open>cardIds\<close> array of every list of the document as it stands
  (and takes the empty sequence where there is none), without looking at \<open>cards\<close>. The
  document \<open>ghost_doc\<close> is accepted and gives a board whose list names a card id that is
  no key of \<open>cards\<close>: referential integrity fails for the imported board.
\<close>

theorem import_copies_cardIds_unchecked:
  "(normalizeImportedState uid nowISO parsed = Inr b \<longrightarrow>
      map cardIds (lists b)
        = map (\<lambda>l. array_or_empty (property l ''cardIds''))
            (array_or_empty (property parsed ''lists'')))
   \<and> normalizeImportedState uid nowISO ghost_doc = Inr ghost_board
   \<and> \<not> referential_integrity ghost_board"
proof -
  have "map cardIds (lists b)
        = map (\<lambda>l. array_or_empty (property l ''cardIds''))
            (array_or_empty (property parsed ''lists''))"
    if "normalizeImportedState uid nowISO parsed = Inr b"
    using that
    by (auto simp: normalizeImportedState_def Let_def split: sum.splits if_splits
        dest: import_lists_cardIds)
  moreover have "normalizeImportedState uid nowISO ghost_doc = Inr ghost_board"
    by (simp add: normalizeImportedState_def ghost_doc_def ghost_board_def import_list_def)
  moreover have "\<not> referential_integrity ghost_board"
    by (simp add: referential_integrity_def ghost_board_def)
  ultimately show ?thesis by blast
qed

theorem import_copies_cardIds_unchecked_witness:
  "normalizeImportedState (\<lambda>i. ''list_0'') (\<lambda>i. ''now'') ghost_doc = Inr ghost_board
   \<and> map cardIds (lists ghost_board) = [[JStr ''ghost'']]
   \<and> \<not> referential_integrity ghost_board"
proof -
  have "map (\<lambda>l. array_or_empty (property l ''cardIds''))
          (array_or_empty (property ghost_doc ''lists'')) = [[JStr ''ghost'']]"
    by (simp add: ghost_doc_def)
  with import_copies_cardIds_unchecked [of "\<lambda>i. ''list_0''" "\<lambda>i. ''now''" ghost_doc ghost_board]
  show ?thesis by simp
qed

end
